theory Spec2Isabelle
  imports Complex_Main "HOL-Library.Word"
begin

section \<open>Python floats\<close>

text \<open>
  A Python float is an IEEE-754 double: a finite number, one of the two infinities, or
  NaN. Only comparisons are performed on distances, and a comparison of two doubles (or
  of a double with an int literal) is exact, so a finite double is represented by the
  real number it denotes. Every ordered comparison with NaN is False.
\<close>

datatype pyfloat = Fin real | PInf | NInf | NaN

fun py_lt :: "pyfloat \<Rightarrow> pyfloat \<Rightarrow> bool" where
  "py_lt NaN _ = False"
| "py_lt _ NaN = False"
| "py_lt (Fin x) (Fin y) = (x < y)"
| "py_lt (Fin _) PInf = True"
| "py_lt (Fin _) NInf = False"
| "py_lt PInf _ = False"
| "py_lt NInf (Fin _) = True"
| "py_lt NInf PInf = True"
| "py_lt NInf NInf = False"

fun py_le :: "pyfloat \<Rightarrow> pyfloat \<Rightarrow> bool" where
  "py_le NaN _ = False"
| "py_le _ NaN = False"
| "py_le (Fin x) (Fin y) = (x \<le> y)"
| "py_le (Fin _) PInf = True"
| "py_le (Fin _) NInf = False"
| "py_le PInf PInf = True"
| "py_le PInf _ = False"
| "py_le NInf _ = True"

definition is_nan :: "pyfloat \<Rightarrow> bool" where
  "is_nan d = (d = NaN)"

section \<open>Speed Governor (SpeedControllerUDP.py)\<close>

definition RTDE_FREQUENCY :: nat where "RTDE_FREQUENCY = 100"

definition VELOCITY_THRESHOLD_0_5M :: real where "VELOCITY_THRESHOLD_0_5M = 0.0"
definition VELOCITY_THRESHOLD_1M :: real where "VELOCITY_THRESHOLD_1M = 0.3"
definition VELOCITY_2M_THRESHOLD :: real where "VELOCITY_2M_THRESHOLD = 0.7"
definition VELOCITY_3M_THRESHOLD :: real where "VELOCITY_3M_THRESHOLD = 1.0"
definition VELOCITY_OVER_3M_THRESHOLD :: real where "VELOCITY_OVER_3M_THRESHOLD = 1.0"

lemmas velocity_defs =
  VELOCITY_THRESHOLD_0_5M_def VELOCITY_THRESHOLD_1M_def VELOCITY_2M_THRESHOLD_def
  VELOCITY_3M_THRESHOLD_def VELOCITY_OVER_3M_THRESHOLD_def

text \<open>
  The if/elif chain of \<open>calculate_speed_fraction\<close>, branch by branch; a chained
  comparison \<open>a <= d < b\<close> is \<open>a <= d and d < b\<close>.
\<close>

definition calculate_speed_fraction :: "pyfloat \<Rightarrow> real" where
  "calculate_speed_fraction distance =
     (if py_lt distance (Fin 0) then VELOCITY_OVER_3M_THRESHOLD
      else if py_lt distance (Fin 1) then VELOCITY_THRESHOLD_0_5M
      else if py_le (Fin 1) distance \<and> py_lt distance (Fin 2) then VELOCITY_THRESHOLD_1M
      else if py_le (Fin 2) distance \<and> py_lt distance (Fin 3) then VELOCITY_2M_THRESHOLD
      else if py_le (Fin 3) distance \<and> py_lt distance (Fin 4) then VELOCITY_3M_THRESHOLD
      else VELOCITY_OVER_3M_THRESHOLD)"

section \<open>Freshness Channel: the distance queue (SpeedControllerUDP.py)\<close>

text \<open>
  \<open>distance_queue = Queue()\<close> is an unbounded FIFO queue. It is represented by the list
  of its pending items, oldest first. \<open>put\<close> appends at the tail, \<open>get_nowait\<close> removes
  the head and raises \<open>Empty\<close> on an empty queue.
\<close>

datatype queue_error = Empty

definition queue_put :: "'a \<Rightarrow> 'a list \<Rightarrow> 'a list" where
  "queue_put x q = q @ [x]"

definition queue_empty :: "'a list \<Rightarrow> bool" where
  "queue_empty q = (q = [])"

definition qsize :: "'a list \<Rightarrow> nat" where
  "qsize q = length q"

fun queue_get_nowait :: "'a list \<Rightarrow> queue_error + ('a \<times> 'a list)" where
  "queue_get_nowait [] = Inl Empty"
| "queue_get_nowait (x # q) = Inr (x, q)"

text \<open>The producer side: one \<open>put\<close> per parsed sample, in arrival order.\<close>

definition publish_all :: "'a list \<Rightarrow> 'a list \<Rightarrow> 'a list" where
  "publish_all vs q = foldl (\<lambda>q v. queue_put v q) q vs"

text \<open>
  The drain loop of the RTDE cycle:
  \<^verbatim>\<open>
  try:
      while not distance_queue.empty():
          current_distance = distance_queue.get_nowait()
  except Empty:
      pass
  \<close>
  It returns the new \<open>current_distance\<close> and the queue left behind.
\<close>

function drain_queue :: "'a list \<Rightarrow> 'a \<Rightarrow> 'a \<times> 'a list" where
  "drain_queue q current_distance =
     (if \<not> queue_empty q then
        (case queue_get_nowait q of
           Inr (x, q') \<Rightarrow> drain_queue q' x
         | Inl Empty \<Rightarrow> (current_distance, q))
      else (current_distance, q))"
  by pat_completeness auto
termination
  by (relation "measure (\<lambda>(q, _). length q)") (auto elim: queue_get_nowait.elims)

declare drain_queue.simps [simp del]

section \<open>Python strings\<close>

text \<open>
  A character is a code point below 256. \<open>str.strip()\<close> removes the characters for which
  \<open>str.isspace()\<close> holds from both ends; below 256 these are U+0009..U+000D,
  U+001C..U+0020, U+0085 and U+00A0.
\<close>

definition py_isspace :: "char \<Rightarrow> bool" where
  "py_isspace c =
     (let n = of_char c :: nat
      in (9 \<le> n \<and> n \<le> 13) \<or> (28 \<le> n \<and> n \<le> 32) \<or> n = 133 \<or> n = 160)"

definition py_strip :: "string \<Rightarrow> string" where
  "py_strip s = rev (dropWhile py_isspace (rev (dropWhile py_isspace s)))"

definition py_startswith :: "string \<Rightarrow> string \<Rightarrow> bool" where
  "py_startswith s p = (take (length p) s = p)"

text \<open>\<open>s.split(sep)\<close> for a one-character separator: never an empty list.\<close>

fun py_split :: "char \<Rightarrow> string \<Rightarrow> string list" where
  "py_split sep [] = [[]]"
| "py_split sep (c # cs) =
     (if c = sep then [] # py_split sep cs
      else (case py_split sep cs of
              w # ws \<Rightarrow> (c # w) # ws
            | [] \<Rightarrow> [[c]]))"

datatype py_exc = ValueError | IndexError | UnicodeDecodeError

definition py_index :: "'a list \<Rightarrow> nat \<Rightarrow> py_exc + 'a" where
  "py_index xs i = (if i < length xs then Inr (xs ! i) else Inl IndexError)"
text \<open>
  The builtin \<open>float(str)\<close> is a parameter of the model: a function
  \<open>string \<Rightarrow> pyfloat option\<close>, \<open>None\<close> standing for \<open>ValueError\<close>. For concrete runs
  it is instantiated by \<open>py_float\<close>, which follows CPython on strings of code points
  below 256: code points above 127 are replaced by a space if they are whitespace and
  are an error otherwise; ASCII whitespace (U+0009..U+000D, U+0020) is stripped from
  both ends; an underscore is dropped if it stands between two digits and is an error
  otherwise; what remains is, case-insensitively, an optional sign followed by \<open>inf\<close>,
  \<open>infinity\<close>, \<open>nan\<close>, or by decimal digits with at most one point, at least one digit
  and an optional exponent. The decimal is rounded to the nearest double, ties to even
  (\<open>round_to_double p q\<close> rounds \<open>p / q\<close>); beyond the largest double it is infinite.
  The sign of a zero is not represented.
\<close>

definition ascii_isspace :: "char \<Rightarrow> bool" where
  "ascii_isspace c = (let n = of_char c :: nat in (9 \<le> n \<and> n \<le> 13) \<or> n = 32)"

definition is_ascii :: "char \<Rightarrow> bool" where
  "is_ascii c = ((of_char c :: nat) < 128)"

definition is_digit :: "char \<Rightarrow> bool" where
  "is_digit c = (let n = of_char c :: nat in 48 \<le> n \<and> n \<le> 57)"

fun transform_space_to_ascii :: "string \<Rightarrow> string option" where
  "transform_space_to_ascii [] = Some []"
| "transform_space_to_ascii (c # cs) =
     (if is_ascii c then map_option ((#) c) (transform_space_to_ascii cs)
      else if py_isspace c then map_option ((#) (CHR '' '')) (transform_space_to_ascii cs)
      else None)"

definition strip_ascii :: "string \<Rightarrow> string" where
  "strip_ascii s = rev (dropWhile ascii_isspace (rev (dropWhile ascii_isspace s)))"

fun drop_underscores :: "char \<Rightarrow> string \<Rightarrow> string option" where
  "drop_underscores prev [] = (if prev = CHR ''_'' then None else Some [])"
| "drop_underscores prev (c # cs) =
     (if c = CHR ''_'' then (if is_digit prev then drop_underscores c cs else None)
      else if prev = CHR ''_'' \<and> \<not> is_digit c then None
      else map_option ((#) c) (drop_underscores c cs))"

definition ascii_lower :: "char \<Rightarrow> char" where
  "ascii_lower c =
     (let n = of_char c :: nat in if 65 \<le> n \<and> n \<le> 90 then char_of (n + 32) else c)"

function bit_length :: "int \<Rightarrow> int" where
  "bit_length n = (if n \<le> 0 then 0 else 1 + bit_length (n div 2))"
  by pat_completeness auto
termination
  by (relation "measure nat") auto

declare bit_length.simps [simp del]

definition pow2 :: "int \<Rightarrow> int" where
  "pow2 e = 2 ^ nat e"

definition round_to_double :: "int \<Rightarrow> int \<Rightarrow> pyfloat" where
  "round_to_double p q =
     (if p = 0 then Fin 0
      else
        (let e0 = bit_length p - bit_length q - 53;
             e1 = (if p * pow2 (- e0) \<ge> pow2 53 * (q * pow2 e0) then e0 + 1 else e0);
             e = max e1 (- 1074);
             N = p * pow2 (- e);
             D = q * pow2 e;
             k = N div D;
             r = N mod D;
             m = (if 2 * r < D then k else if D < 2 * r then k + 1 else k + k mod 2)
         in if m * pow2 e \<ge> pow2 1024 * pow2 (- e) then PInf
            else Fin (real_of_int (m * pow2 e) / real_of_int (pow2 (- e)))))"

definition digit_value :: "char \<Rightarrow> int option" where
  "digit_value c =
     (let n = of_char c :: int in if 48 \<le> n \<and> n \<le> 57 then Some (n - 48) else None)"

fun digits_int :: "int \<Rightarrow> string \<Rightarrow> int option" where
  "digits_int acc [] = Some acc"
| "digits_int acc (c # cs) =
     (case digit_value c of None \<Rightarrow> None | Some d \<Rightarrow> digits_int (10 * acc + d) cs)"

definition signed_int :: "string \<Rightarrow> int option" where
  "signed_int s =
     (case s of
        [] \<Rightarrow> None
      | c # cs \<Rightarrow>
          if c = CHR ''-'' then (if cs = [] then None
                                else map_option uminus (digits_int 0 cs))
          else if c = CHR ''+'' then (if cs = [] then None else digits_int 0 cs)
          else digits_int 0 (c # cs))"

definition decimal_to_double :: "string \<Rightarrow> string \<Rightarrow> int \<Rightarrow> pyfloat option" where
  "decimal_to_double a b ex =
     (if a = [] \<and> b = [] then None
      else (case digits_int 0 (a @ b) of
              None \<Rightarrow> None
            | Some n \<Rightarrow>
                (let k = ex - int (length b)
                 in Some (round_to_double (n * 10 ^ nat k) (10 ^ nat (- k))))))"

definition parse_decimal :: "string \<Rightarrow> pyfloat option" where
  "parse_decimal s =
     (case py_split (CHR ''e'') s of
        [m] \<Rightarrow>
          (case py_split (CHR ''.'') m of
             [a] \<Rightarrow> decimal_to_double a [] 0
           | [a, b] \<Rightarrow> decimal_to_double a b 0
           | _ \<Rightarrow> None)
      | [m, x] \<Rightarrow>
          (case signed_int x of
             None \<Rightarrow> None
           | Some ex \<Rightarrow>
               (case py_split (CHR ''.'') m of
                  [a] \<Rightarrow> decimal_to_double a [] ex
                | [a, b] \<Rightarrow> decimal_to_double a b ex
                | _ \<Rightarrow> None))
      | _ \<Rightarrow> None)"

definition py_negate :: "pyfloat \<Rightarrow> pyfloat" where
  "py_negate x = (case x of Fin r \<Rightarrow> Fin (- r) | PInf \<Rightarrow> NInf | NInf \<Rightarrow> PInf | NaN \<Rightarrow> NaN)"

definition parse_unsigned :: "string \<Rightarrow> pyfloat option" where
  "parse_unsigned s =
     (if s = ''inf'' \<or> s = ''infinity'' then Some PInf
      else if s = ''nan'' then Some NaN
      else parse_decimal s)"

definition py_float :: "string \<Rightarrow> pyfloat option" where
  "py_float s =
     (case transform_space_to_ascii s of
        None \<Rightarrow> None
      | Some t \<Rightarrow>
          (case drop_underscores (CHR 0x00) (strip_ascii t) of
             None \<Rightarrow> None
           | Some u \<Rightarrow>
               (case map ascii_lower u of
                  [] \<Rightarrow> None
                | c # cs \<Rightarrow>
                    if c = CHR ''-'' then map_option py_negate (parse_unsigned cs)
                    else if c = CHR ''+'' then parse_unsigned cs
                    else parse_unsigned (c # cs))))"

section \<open>UDP decoder (udp_listener.py)\<close>

type_synonym byte = "8 word"

definition calcsize_f :: nat where
  \<comment> \<open>\<open>struct.calcsize('<f')\<close>\<close>
  "calcsize_f = 4"

definition recvfrom :: "nat \<Rightarrow> byte list \<Rightarrow> byte list" where
  \<comment> \<open>a datagram longer than the buffer is cut to the buffer size\<close>
  "recvfrom bufsize payload = take bufsize payload"

datatype listener_event =
    StdoutWrite string
  | LogForwarded pyfloat
  | LogMalformedPacket nat
  | LogReceptionError

datatype reception = Datagram "byte list" | ReceptionError

text \<open>
  One pass of the reception loop. \<open>struct.unpack('<f', data)[0]\<close> and the \<open>str\<close> of a
  float are parameters (\<open>unpack_f\<close>, \<open>str_f\<close>). An exception of \<open>recvfrom\<close> is caught
  inside the loop, logged, and the loop goes on.
\<close>

definition receive_one ::
  "(byte list \<Rightarrow> pyfloat) \<Rightarrow> (pyfloat \<Rightarrow> string) \<Rightarrow> reception \<Rightarrow> listener_event list" where
  "receive_one unpack_f str_f r =
     (case r of
        Datagram payload \<Rightarrow>
          (let data = recvfrom 1024 payload
           in if length data = calcsize_f then
                (let received_distance = unpack_f data
                 in [StdoutWrite (''DISTANCE:'' @ str_f received_distance @ [CHR 0x0A]),
                     LogForwarded received_distance])
              else [LogMalformedPacket (length data)])
      | ReceptionError \<Rightarrow> [LogReceptionError])"

text \<open>\<open>while True\<close> over the datagrams that arrive; the events produced, in order.\<close>

fun reception_loop ::
  "(byte list \<Rightarrow> pyfloat) \<Rightarrow> (pyfloat \<Rightarrow> string) \<Rightarrow> reception list \<Rightarrow> listener_event list" where
  "reception_loop unpack_f str_f [] = []"
| "reception_loop unpack_f str_f (r # rs) =
     receive_one unpack_f str_f r @ reception_loop unpack_f str_f rs"

definition stdout_lines :: "listener_event list \<Rightarrow> string list" where
  "stdout_lines evs = concat (map (\<lambda>e. case e of StdoutWrite l \<Rightarrow> [l] | _ \<Rightarrow> []) evs)"

section \<open>Ingestion Supervisor: the multiplexed read loop of main (SpeedControllerUDP.py)\<close>

datatype log_entry =
    LogPut pyfloat
  | LogMalformedLine string
  | LogUnknownOutput string
  | LogUdpErr string
  | LogQuit
  | LogIgnoredInput string
  | LogChildTerminated
  | LogRemainingStderr string

text \<open>\<open>elapsed\<close> counts the milliseconds the loop has spent waiting.\<close>

record main_state =
  stop_event :: bool
  queue :: "pyfloat list"
  log :: "log_entry list"
  elapsed :: nat

definition logging_info :: "log_entry \<Rightarrow> main_state \<Rightarrow> main_state" where
  "logging_info e s = s\<lparr>log := log s @ [e]\<rparr>"

definition wait_ms :: "nat \<Rightarrow> main_state \<Rightarrow> main_state" where
  "wait_ms ms s = s\<lparr>elapsed := elapsed s + ms\<rparr>"

text \<open>
  The pipes are opened with \<open>text=True\<close>: \<open>readline()\<close> and \<open>read()\<close> decode what the
  child wrote and raise \<open>UnicodeDecodeError\<close> on bytes that are not valid in the
  encoding. A read gives a decoded string (empty at end of file) or that error.
\<close>

datatype read = Line string | DecodeError

text \<open>
  What the loop does with one line read from the child's stdout. Only \<open>ValueError\<close> is
  caught around the parse; an \<open>IndexError\<close> of \<open>[1]\<close> would leave the loop.
\<close>

definition handle_stdout_line ::
  "(string \<Rightarrow> pyfloat option) \<Rightarrow> string \<Rightarrow> main_state \<Rightarrow> py_exc + main_state" where
  "handle_stdout_line float_of line s =
     (if line \<noteq> [] then
        if py_startswith line ''DISTANCE:'' then
          (case py_index (py_split (CHR '':'') (py_strip line)) 1 of
             Inl e \<Rightarrow> Inl e
           | Inr field \<Rightarrow>
               (case float_of field of
                  Some received_distance \<Rightarrow>
                    Inr (logging_info (LogPut received_distance)
                          (s\<lparr>queue := queue_put received_distance (queue s)\<rparr>))
                | None \<Rightarrow> Inr (logging_info (LogMalformedLine (py_strip line)) s)))
        else Inr (logging_info (LogUnknownOutput (py_strip line)) s)
      else Inr s)"

text \<open>
  A descriptor reported ready, with the time its \<open>readline()\<close> blocks (it returns only
  with a whole line or at end of file) and what it returns. The reads stand outside
  every \<open>try\<close> of the loop, so a decoding error leaves the loop.
\<close>

datatype ready = ChildStdout nat read | ChildStderr nat read | Console nat read

fun handle_ready ::
  "(string \<Rightarrow> pyfloat option) \<Rightarrow> ready \<Rightarrow> main_state \<Rightarrow> py_exc + main_state" where
  "handle_ready float_of (ChildStdout ms r) s =
     (case r of
        DecodeError \<Rightarrow> Inl UnicodeDecodeError
      | Line line \<Rightarrow> handle_stdout_line float_of line (wait_ms ms s))"
| "handle_ready float_of (ChildStderr ms r) s =
     (case r of
        DecodeError \<Rightarrow> Inl UnicodeDecodeError
      | Line err_line \<Rightarrow>
          Inr (if err_line \<noteq> [] then logging_info (LogUdpErr (py_strip err_line)) (wait_ms ms s)
               else wait_ms ms s))"
| "handle_ready float_of (Console ms r) s =
     (case r of
        DecodeError \<Rightarrow> Inl UnicodeDecodeError
      | Line raw \<Rightarrow>
          (let line = py_strip raw
           in if line = ''q''
              then Inr ((logging_info LogQuit (wait_ms ms s))\<lparr>stop_event := True\<rparr>)
              else Inr (logging_info (LogIgnoredInput line) (wait_ms ms s))))"

text \<open>The \<open>for fd, event in ready_fds\<close> loop; an exception ends it.\<close>

fun handle_ready_fds ::
  "(string \<Rightarrow> pyfloat option) \<Rightarrow> ready list \<Rightarrow> main_state \<Rightarrow> py_exc + main_state" where
  "handle_ready_fds float_of [] s = Inr s"
| "handle_ready_fds float_of (r # rs) s =
     (case handle_ready float_of r s of
        Inl e \<Rightarrow> Inl e
      | Inr s' \<Rightarrow> handle_ready_fds float_of rs s')"

text \<open>
  One return of \<open>poller.poll(100)\<close>: how long it would wait for a descriptor to become
  ready (the call returns after 100 ms at the latest), the descriptors reported ready,
  whether \<open>udp_process.poll()\<close> finds the child gone afterwards, and what
  \<open>udp_process.stderr.read()\<close> returns in that case.
\<close>

record wake =
  poll_wait :: nat
  ready_fds :: "ready list"
  child_exited :: bool
  remaining_stderr :: read

definition POLL_TIMEOUT_MS :: nat where "POLL_TIMEOUT_MS = 100"

definition poll :: "wake \<Rightarrow> main_state \<Rightarrow> main_state" where
  "poll w s = wait_ms (min (poll_wait w) POLL_TIMEOUT_MS) s"

definition child_terminated :: "wake \<Rightarrow> main_state \<Rightarrow> py_exc + main_state" where
  "child_terminated w s =
     (case remaining_stderr w of
        DecodeError \<Rightarrow> Inl UnicodeDecodeError
      | Line stderr_output \<Rightarrow>
          (let s1 = logging_info LogChildTerminated s;
               s2 = (if stderr_output \<noteq> [] then logging_info (LogRemainingStderr stderr_output) s1
                     else s1)
           in Inr (s2\<lparr>stop_event := True\<rparr>)))"

fun main_loop ::
  "(string \<Rightarrow> pyfloat option) \<Rightarrow> wake list \<Rightarrow> main_state \<Rightarrow> py_exc + main_state" where
  "main_loop float_of [] s = Inr s"
| "main_loop float_of (w # ws) s =
     (if \<not> stop_event s then
        (case handle_ready_fds float_of (ready_fds w) (poll w s) of
           Inl e \<Rightarrow> Inl e
         | Inr s' \<Rightarrow>
             if child_exited w then child_terminated w s'
             else main_loop float_of ws s')
      else Inr s)"

section \<open>Protocol Session Controller: run_rtde_controller (SpeedControllerUDP.py)\<close>

subsection \<open>The RTDE library as seen by the controller\<close>

text \<open>
  The RTDE library is outside the repository. Each call on \<open>con\<close> is answered by the
  environment: it raises or returns a value, and it leaves the transport connected or
  not (what \<open>con.is_connected()\<close> says afterwards). The calls issued and the sleeps
  taken are recorded in a trace; the clock counts the milliseconds slept.
\<close>

datatype exc = ConnectionRefusedError | OtherException

datatype 'a call = Raises exc | Returns 'a

type_synonym 'a reply = "'a call \<times> bool"

datatype pyval = PNone | PNum real

text \<open>The attributes of a \<open>DataObject\<close>, by name.\<close>

type_synonym data_object = "(string \<times> pyval) list"

definition hasattr :: "data_object \<Rightarrow> string \<Rightarrow> bool" where
  "hasattr obj name = (map_of obj name \<noteq> None)"

definition getattr :: "data_object \<Rightarrow> string \<Rightarrow> pyval option" where
  "getattr obj name = map_of obj name"

fun setattr :: "data_object \<Rightarrow> string \<Rightarrow> pyval \<Rightarrow> data_object" where
  "setattr [] name v = [(name, v)]"
| "setattr ((k, x) # obj) name v =
     (if k = name then (k, v) # obj else (k, x) # setattr obj name v)"

datatype event =
    Connect
  | SendInputSetup
  | SendOutputSetup nat
  | SendStart
  | Receive
  | Send data_object
  | SendPause
  | Disconnect
  | Sleep nat

record controller =
  clock :: nat
  trace :: "event list"
  con :: "bool option"
  input_data :: "data_object option"
  current_distance :: pyfloat
  previous_speed_fraction :: real
  distance_queue :: "pyfloat list"

text \<open>The locals of \<open>run_rtde_controller\<close> before its outer loop, and an empty queue.\<close>

definition init_controller :: controller where
  "init_controller =
     \<lparr>clock = 0, trace = [], con = None, input_data = None,
      current_distance = Fin (- 1.0), previous_speed_fraction = - 1.0,
      distance_queue = []\<rparr>"

definition emit :: "event \<Rightarrow> controller \<Rightarrow> controller" where
  "emit e s = s\<lparr>trace := trace s @ [e]\<rparr>"

definition sleep :: "nat \<Rightarrow> controller \<Rightarrow> controller" where
  \<comment> \<open>\<open>time.sleep\<close>, in milliseconds\<close>
  "sleep ms s = (emit (Sleep ms) s)\<lparr>clock := clock s + ms\<rparr>"

definition con_call :: "event \<Rightarrow> bool \<Rightarrow> controller \<Rightarrow> controller" where
  "con_call e up s = (emit e s)\<lparr>con := Some up\<rparr>"

definition is_connected :: "controller \<Rightarrow> bool" where
  "is_connected s = (con s = Some True)"

text \<open>
  \<open>stop_event\<close> is set by another thread, once and for good: \<open>stop_at\<close> is the clock
  value from which \<open>stop_event.is_set()\<close> is True (\<open>None\<close>: never set).
\<close>

definition is_set :: "nat option \<Rightarrow> controller \<Rightarrow> bool" where
  "is_set stop_at s = (case stop_at of None \<Rightarrow> False | Some t \<Rightarrow> t \<le> clock s)"

text \<open>
  How a part of the thread ends: normally, by an exception, or not within the
  environment given (the loop would go on).
\<close>

datatype outcome = Normal | Raised exc | Unfinished

fun and_then ::
  "outcome \<times> controller \<Rightarrow> (controller \<Rightarrow> outcome \<times> controller) \<Rightarrow> outcome \<times> controller" where
  "and_then (Normal, s) f = f s"
| "and_then (r, s) f = (r, s)"

subsection \<open>The connection loop\<close>

definition MAX_RETRIES :: nat where "MAX_RETRIES = 5"

function connect_loop ::
  "nat option \<Rightarrow> (nat \<Rightarrow> unit reply) \<Rightarrow> nat \<Rightarrow> controller \<Rightarrow> outcome \<times> controller" where
  "connect_loop stop_at connect_reply retries s =
     (if \<not> is_connected s \<and> \<not> is_set stop_at s then
        if retries \<ge> MAX_RETRIES then (Raised ConnectionRefusedError, s)
        else
          (let s1 = con_call Connect (snd (connect_reply retries)) s
           in case fst (connect_reply retries) of
                Returns _ \<Rightarrow>
                  if is_connected s1 then (Normal, s1)
                  else connect_loop stop_at connect_reply (retries + 1) (sleep 2000 s1)
              | Raises _ \<Rightarrow> connect_loop stop_at connect_reply (retries + 1) (sleep 2000 s1))
      else (Normal, s))"
  by pat_completeness auto
termination
  by (relation "measure (\<lambda>(_, _, retries, _). MAX_RETRIES - retries)") auto

declare connect_loop.simps [simp del]

definition connect_phase ::
  "nat option \<Rightarrow> (nat \<Rightarrow> unit reply) \<Rightarrow> controller \<Rightarrow> outcome \<times> controller" where
  "connect_phase stop_at connect_reply s =
     and_then (connect_loop stop_at connect_reply 0 (s\<lparr>con := Some False\<rparr>))
       (\<lambda>s'. if \<not> is_connected s' then (Raised ConnectionRefusedError, s') else (Normal, s'))"

subsection \<open>The handshake\<close>

record cycle_env =
  published :: "pyfloat list"
  receive_reply :: "unit option reply"
  send_reply :: "bool reply"

record session_env =
  connect_reply :: "nat \<Rightarrow> unit reply"
  config_loads :: bool
  input_setup_reply :: "data_object option reply"
  output_setup_reply :: "bool reply"
  start_reply :: "bool reply"
  cycles :: "cycle_env list"
  pause_reply :: "bool reply"
  disconnect_reply :: "unit reply"

definition load_config :: "session_env \<Rightarrow> controller \<Rightarrow> outcome \<times> controller" where
  "load_config env s = (if config_loads env then (Normal, s) else (Raised OtherException, s))"

definition input_setup :: "session_env \<Rightarrow> controller \<Rightarrow> outcome \<times> controller" where
  "input_setup env s =
     (let s1 = con_call SendInputSetup (snd (input_setup_reply env)) s
      in case fst (input_setup_reply env) of
           Raises e \<Rightarrow> (Raised e, s1)
         | Returns None \<Rightarrow> (Raised OtherException, s1\<lparr>input_data := None\<rparr>)
         | Returns (Some obj) \<Rightarrow>
             (let obj1 = (if hasattr obj ''speed_slider_mask''
                          then setattr obj ''speed_slider_mask'' (PNum 1) else obj);
                  obj2 = (if hasattr obj1 ''speed_slider_fraction''
                          then setattr obj1 ''speed_slider_fraction''
                                 (PNum VELOCITY_OVER_3M_THRESHOLD)
                          else obj1)
              in (Normal, s1\<lparr>input_data := Some obj2\<rparr>)))"

definition output_setup :: "session_env \<Rightarrow> controller \<Rightarrow> outcome \<times> controller" where
  "output_setup env s =
     (let s1 = con_call (SendOutputSetup RTDE_FREQUENCY) (snd (output_setup_reply env)) s
      in case fst (output_setup_reply env) of
           Raises e \<Rightarrow> (Raised e, s1)
         | Returns ok \<Rightarrow> if \<not> ok then (Raised OtherException, s1) else (Normal, s1))"

definition start_sync :: "session_env \<Rightarrow> controller \<Rightarrow> outcome \<times> controller" where
  "start_sync env s =
     (let s1 = con_call SendStart (snd (start_reply env)) s
      in case fst (start_reply env) of
           Raises e \<Rightarrow> (Raised e, s1)
         | Returns ok \<Rightarrow> if \<not> ok then (Raised OtherException, s1) else (Normal, s1))"

definition handshake :: "session_env \<Rightarrow> controller \<Rightarrow> outcome \<times> controller" where
  "handshake env s =
     and_then (and_then (input_setup env s) (output_setup env)) (start_sync env)"

subsection \<open>The cyclic exchange loop\<close>

definition consume_latest :: "controller \<Rightarrow> controller" where
  "consume_latest s =
     (let (d, q) = drain_queue (distance_queue s) (current_distance s)
      in s\<lparr>current_distance := d, distance_queue := q\<rparr>)"

definition send_if_changed :: "bool reply \<Rightarrow> real \<Rightarrow> controller \<Rightarrow> outcome \<times> controller" where
  "send_if_changed rep new_speed_fraction s =
     (case input_data s of
        Some obj \<Rightarrow>
          if hasattr obj ''speed_slider_fraction''
             \<and> new_speed_fraction \<noteq> previous_speed_fraction s
          then
            (let obj' = setattr obj ''speed_slider_fraction'' (PNum new_speed_fraction);
                 s1 = con_call (Send obj') (snd rep) (s\<lparr>input_data := Some obj'\<rparr>)
             in case fst rep of
                  Raises e \<Rightarrow> (Raised e, s1)
                | Returns _ \<Rightarrow> (Normal, s1\<lparr>previous_speed_fraction := new_speed_fraction\<rparr>))
          else (Normal, s)
      | None \<Rightarrow> (Normal, s))"

text \<open>
  One pass of the loop body, up to its pacing sleep. The samples the producer has put on
  the queue since the previous pass are in \<open>published\<close>.
\<close>

definition cycle :: "cycle_env \<Rightarrow> controller \<Rightarrow> outcome \<times> controller" where
  "cycle c s =
     (let s0 = s\<lparr>distance_queue := publish_all (published c) (distance_queue s)\<rparr>;
          s1 = con_call Receive (snd (receive_reply c)) s0
      in case fst (receive_reply c) of
           Raises e \<Rightarrow> (Raised e, s1)
         | Returns None \<Rightarrow> (Normal, s1)
         | Returns (Some _) \<Rightarrow>
             (let s2 = consume_latest s1
              in send_if_changed (send_reply c)
                   (calculate_speed_fraction (current_distance s2)) s2))"

definition cycle_period_ms :: nat where
  \<comment> \<open>\<open>1 / RTDE_FREQUENCY\<close> seconds\<close>
  "cycle_period_ms = 1000 div RTDE_FREQUENCY"

fun cyclic_loop :: "nat option \<Rightarrow> cycle_env list \<Rightarrow> controller \<Rightarrow> outcome \<times> controller" where
  "cyclic_loop stop_at [] s =
     (if \<not> is_set stop_at s \<and> is_connected s then (Unfinished, s) else (Normal, s))"
| "cyclic_loop stop_at (c # cs) s =
     (if \<not> is_set stop_at s \<and> is_connected s then
        (case cycle c s of
           (Normal, s') \<Rightarrow> cyclic_loop stop_at cs (sleep cycle_period_ms s')
         | (r, s') \<Rightarrow> (r, s'))
      else (Normal, s))"

subsection \<open>One pass of the outer loop\<close>

definition session_body :: "nat option \<Rightarrow> session_env \<Rightarrow> controller \<Rightarrow> outcome \<times> controller" where
  "session_body stop_at env s =
     and_then
       (and_then
          (and_then (connect_phase stop_at (connect_reply env) s) (load_config env))
          (handshake env))
       (cyclic_loop stop_at (cycles env))"

text \<open>The \<open>finally\<close> block.\<close>

definition teardown :: "session_env \<Rightarrow> controller \<Rightarrow> controller" where
  "teardown env s =
     (let s1 =
        (if con s \<noteq> None \<and> is_connected s then
           (let s2 = con_call SendPause (snd (pause_reply env)) s
            in case fst (pause_reply env) of
                 Raises _ \<Rightarrow> s2
               | Returns _ \<Rightarrow> con_call Disconnect (snd (disconnect_reply env)) s2)
         else s)
      in sleep 30000 (s1\<lparr>con := None\<rparr>))"

text \<open>The \<open>except\<close> clauses, then \<open>finally\<close>.\<close>

definition session :: "nat option \<Rightarrow> session_env \<Rightarrow> controller \<Rightarrow> outcome \<times> controller" where
  "session stop_at env s =
     (case session_body stop_at env s of
        (Unfinished, s') \<Rightarrow> (Unfinished, s')
      | (Raised ConnectionRefusedError, s') \<Rightarrow> (Normal, teardown env (sleep 10000 s'))
      | (Raised OtherException, s') \<Rightarrow> (Normal, teardown env (sleep 5000 s'))
      | (Normal, s') \<Rightarrow> (Normal, teardown env s'))"

subsection \<open>The outer loop\<close>

fun run_rtde_controller ::
  "nat option \<Rightarrow> session_env list \<Rightarrow> controller \<Rightarrow> outcome \<times> controller" where
  "run_rtde_controller stop_at [] s =
     (if is_set stop_at s then (Normal, s) else (Unfinished, s))"
| "run_rtde_controller stop_at (env # envs) s =
     (if is_set stop_at s then (Normal, s)
      else (case session stop_at env s of
              (Normal, s') \<Rightarrow> run_rtde_controller stop_at envs s'
            | (r, s') \<Rightarrow> (r, s')))"

subsection \<open>Reading traces\<close>

definition sent_objects :: "event list \<Rightarrow> data_object list" where
  "sent_objects tr = concat (map (\<lambda>e. case e of Send obj \<Rightarrow> [obj] | _ \<Rightarrow> []) tr)"

definition sent_fractions :: "event list \<Rightarrow> pyval option list" where
  "sent_fractions tr = map (\<lambda>obj. getattr obj ''speed_slider_fraction'') (sent_objects tr)"

definition connects :: "event list \<Rightarrow> nat" where
  "connects tr = length (filter (\<lambda>e. e = Connect) tr)"

definition cyclic_event :: "event \<Rightarrow> bool" where
  "cyclic_event e = (case e of Receive \<Rightarrow> True | Send _ \<Rightarrow> True | _ \<Rightarrow> False)"

section \<open>Vocabulary of the properties\<close>

text \<open>
  \<open>same_locals\<close>: the locals of the thread and the queue are unchanged. \<open>input_ok\<close>,
  \<open>output_ok\<close>, \<open>start_ok\<close>: the handshake step neither raises nor returns a false
  value. \<open>cycle_fraction\<close>, \<open>computed_fractions\<close>: the fractions computed by one pass
  of the cyclic loop (none without a state packet) and by a whole run of it.
\<close>

definition same_locals :: "controller \<Rightarrow> controller \<Rightarrow> bool" where
  "same_locals s s' =
     (input_data s' = input_data s \<and> current_distance s' = current_distance s
      \<and> previous_speed_fraction s' = previous_speed_fraction s
      \<and> distance_queue s' = distance_queue s)"

definition input_ok :: "session_env \<Rightarrow> bool" where
  "input_ok env = (\<exists>obj. fst (input_setup_reply env) = Returns (Some obj))"

definition output_ok :: "session_env \<Rightarrow> bool" where
  "output_ok env = (fst (output_setup_reply env) = Returns True)"

definition start_ok :: "session_env \<Rightarrow> bool" where
  "start_ok env = (fst (start_reply env) = Returns True)"

definition handshake_steps :: "event list" where
  "handshake_steps = [SendInputSetup, SendOutputSetup RTDE_FREQUENCY, SendStart]"

definition steps_attempted :: "session_env \<Rightarrow> nat" where
  "steps_attempted env = (if \<not> input_ok env then 1 else if \<not> output_ok env then 2 else 3)"

definition has_fraction_field :: "controller \<Rightarrow> bool" where
  "has_fraction_field s =
     (case input_data s of Some obj \<Rightarrow> hasattr obj ''speed_slider_fraction'' | None \<Rightarrow> False)"

definition cycle_fraction :: "cycle_env \<Rightarrow> controller \<Rightarrow> real list" where
  "cycle_fraction c s =
     (case fst (receive_reply c) of
        Returns (Some _) \<Rightarrow>
          [calculate_speed_fraction (current_distance (consume_latest
             (s\<lparr>distance_queue := publish_all (published c) (distance_queue s)\<rparr>)))]
      | _ \<Rightarrow> [])"

fun computed_fractions :: "nat option \<Rightarrow> cycle_env list \<Rightarrow> controller \<Rightarrow> real list" where
  "computed_fractions stop_at [] s = []"
| "computed_fractions stop_at (c # cs) s =
     (if \<not> is_set stop_at s \<and> is_connected s then
        cycle_fraction c s @
        (case cycle c s of
           (Normal, s') \<Rightarrow> computed_fractions stop_at cs (sleep cycle_period_ms s')
         | _ \<Rightarrow> [])
      else [])"

section \<open>Concrete environments\<close>

text \<open>
  A recipe with both speed slider fields and one without the fraction field; a robot
  that answers every call, one whose \<open>send_start\<close> fails, one that refuses every
  connection; and states reached with them.
\<close>

definition example_object :: data_object where
  "example_object = [(''speed_slider_mask'', PNone), (''speed_slider_fraction'', PNone)]"

definition example_cycle :: "pyfloat list \<Rightarrow> cycle_env" where
  "example_cycle vs =
     \<lparr>published = vs, receive_reply = (Returns (Some ()), True),
      send_reply = (Returns True, True)\<rparr>"

definition streaming_state :: controller where
  "streaming_state = init_controller\<lparr>con := Some True, input_data := Some example_object\<rparr>"

definition no_fraction_object :: data_object where
  "no_fraction_object = [(''speed_slider_mask'', PNone)]"

definition example_env :: "data_object \<Rightarrow> cycle_env list \<Rightarrow> session_env" where
  "example_env obj cs =
     \<lparr>connect_reply = (\<lambda>_. (Returns (), True)), config_loads = True,
      input_setup_reply = (Returns (Some obj), True),
      output_setup_reply = (Returns True, True), start_reply = (Returns True, True),
      cycles = cs, pause_reply = (Returns True, True),
      disconnect_reply = (Returns (), False)\<rparr>"

definition idle_cycle :: cycle_env where
  "idle_cycle = \<lparr>published = [], receive_reply = (Returns None, True),
                 send_reply = (Returns True, True)\<rparr>"

definition first_streaming_state :: controller where
  "first_streaming_state =
     snd (and_then (and_then
            (connect_phase None (connect_reply (example_env example_object [])) init_controller)
            (load_config (example_env example_object [])))
          (handshake (example_env example_object [])))"

definition failed_attempts :: "nat \<Rightarrow> event list" where
  "failed_attempts n = concat (replicate n [Connect, Sleep 2000])"

definition connected_state :: controller where
  "connected_state = snd (connect_phase None (\<lambda>_. (Returns (), True)) init_controller)"

definition failing_env :: session_env where
  "failing_env = (example_env example_object [])\<lparr>start_reply := (Returns False, True)\<rparr>"

definition refusing_env :: session_env where
  "refusing_env =
     (example_env example_object [])\<lparr>connect_reply := (\<lambda>_. (Raises ConnectionRefusedError, False))\<rparr>"

definition exhausted_state :: controller where
  "exhausted_state = snd (session (Some 45000) refusing_env init_controller)"


subsection \<open>Constants and sample inputs of the supervisor\<close>





section \<open>Properties of the Speed Governor\<close>

lemma calculate_speed_fraction_values:
  "calculate_speed_fraction d \<in> {0, 0.3, 0.7, 1}"
  by (simp add: calculate_speed_fraction_def velocity_defs)

lemma calculate_speed_fraction_ne_minus_one:
  "calculate_speed_fraction d \<noteq> - 1"
  using calculate_speed_fraction_values [of d] by auto

text \<open>
  C1. For every float distance \<open>d\<close> (finite, infinite or NaN) the governor returns a
  value in [0, 1] and follows the banded table with half-open bands: \<open>d < 0\<close> gives 1.0,
  \<open>0 \<le> d < 1\<close> gives 0.0, \<open>1 \<le> d < 2\<close> gives 0.3, \<open>2 \<le> d < 3\<close> gives 0.7,
  \<open>3 \<le> d < 4\<close> gives 1.0 and \<open>d \<ge> 4\<close> gives 1.0; the boundaries are exact:
  fraction(1.0) = 0.3, fraction(0.999999) = 0.0, fraction(4.0) = 1.0. The function is a
  total HOL function, hence total and deterministic.
\<close>

theorem calculate_speed_fraction_table:
  "0 \<le> calculate_speed_fraction d \<and> calculate_speed_fraction d \<le> 1
   \<and> (py_lt d (Fin 0) \<longrightarrow> calculate_speed_fraction d = 1.0)
   \<and> (py_le (Fin 0) d \<and> py_lt d (Fin 1) \<longrightarrow> calculate_speed_fraction d = 0.0)
   \<and> (py_le (Fin 1) d \<and> py_lt d (Fin 2) \<longrightarrow> calculate_speed_fraction d = 0.3)
   \<and> (py_le (Fin 2) d \<and> py_lt d (Fin 3) \<longrightarrow> calculate_speed_fraction d = 0.7)
   \<and> (py_le (Fin 3) d \<and> py_lt d (Fin 4) \<longrightarrow> calculate_speed_fraction d = 1.0)
   \<and> (py_le (Fin 4) d \<longrightarrow> calculate_speed_fraction d = 1.0)
   \<and> calculate_speed_fraction (Fin 1.0) = 0.3
   \<and> calculate_speed_fraction (Fin 0.999999) = 0.0
   \<and> calculate_speed_fraction (Fin 4.0) = 1.0"
  by (cases d) (simp_all add: calculate_speed_fraction_def velocity_defs)

theorem calculate_speed_fraction_table_witness:
  "py_lt (Fin (- 1)) (Fin 0) \<and> calculate_speed_fraction (Fin (- 1)) = 1.0
   \<and> py_le (Fin 0) (Fin 0.5) \<and> py_lt (Fin 0.5) (Fin 1) \<and> calculate_speed_fraction (Fin 0.5) = 0.0
   \<and> py_le (Fin 1) (Fin 1.5) \<and> py_lt (Fin 1.5) (Fin 2) \<and> calculate_speed_fraction (Fin 1.5) = 0.3
   \<and> py_le (Fin 2) (Fin 2.5) \<and> py_lt (Fin 2.5) (Fin 3) \<and> calculate_speed_fraction (Fin 2.5) = 0.7
   \<and> py_le (Fin 3) (Fin 3.5) \<and> py_lt (Fin 3.5) (Fin 4) \<and> calculate_speed_fraction (Fin 3.5) = 1.0
   \<and> py_le (Fin 4) PInf \<and> calculate_speed_fraction PInf = 1.0"
  using calculate_speed_fraction_table [of "Fin (- 1)"]
    calculate_speed_fraction_table [of "Fin 0.5"]
    calculate_speed_fraction_table [of "Fin 1.5"]
    calculate_speed_fraction_table [of "Fin 2.5"]
    calculate_speed_fraction_table [of "Fin 3.5"]
    calculate_speed_fraction_table [of PInf]
  by simp

text \<open>
  C9. No clamping or validation is performed beyond the table: for every NaN and every
  negative input (minus infinity included) the result is the constant returned by the
  \<open>d < 0\<close> branch, \<open>VELOCITY_OVER_3M_THRESHOLD\<close> = 1.0. A negative input takes the
  \<open>d < 0\<close> branch itself; for NaN every comparison is False, so control reaches the final
  \<open>else\<close>, which returns the same constant.
\<close>

theorem calculate_speed_fraction_nan_negative:
  "is_nan d \<or> py_lt d (Fin 0) \<Longrightarrow>
     calculate_speed_fraction d = VELOCITY_OVER_3M_THRESHOLD \<and> calculate_speed_fraction d = 1.0"
  by (cases d) (simp_all add: calculate_speed_fraction_def velocity_defs is_nan_def)

theorem calculate_speed_fraction_nan_negative_witness:
  "(is_nan NaN \<or> py_lt NaN (Fin 0)) \<and> calculate_speed_fraction NaN = 1.0
   \<and> (is_nan (Fin (- 1)) \<or> py_lt (Fin (- 1)) (Fin 0)) \<and> calculate_speed_fraction (Fin (- 1)) = 1.0"
  using calculate_speed_fraction_nan_negative [of NaN]
    calculate_speed_fraction_nan_negative [of "Fin (- 1)"]
  by (simp add: is_nan_def)

section \<open>Properties of the Freshness Channel\<close>

lemma publish_all_append: "publish_all vs q = q @ vs"
  unfolding publish_all_def by (induction vs arbitrary: q) (simp_all add: queue_put_def)

lemma drain_queue_Nil: "drain_queue [] cur = (cur, [])"
  by (simp add: drain_queue.simps queue_empty_def)

lemma drain_queue_Cons: "drain_queue (x # q) cur = drain_queue q x"
  by (subst drain_queue.simps) (simp add: queue_empty_def)

lemma drain_queue_eq: "drain_queue q cur = (if q = [] then cur else last q, [])"
  by (induction q arbitrary: cur) (simp_all add: drain_queue_Nil drain_queue_Cons)

text \<open>
  C2. Whatever values \<open>vs\<close> have been published since the last consume, one run of the
  drain loop yields the most recently published one (the last of \<open>vs\<close>), never an
  earlier one; with nothing published the consumer keeps its previous value; and a
  second consume with no publish in between yields the same value as the first.
\<close>

theorem consume_latest_freshest:
  "(vs \<noteq> [] \<longrightarrow> fst (drain_queue (publish_all vs q) previous) = last vs)
   \<and> fst (drain_queue [] previous) = previous
   \<and> (let (c1, q1) = drain_queue (publish_all vs q) previous;
           (c2, q2) = drain_queue q1 c1
       in q1 = [] \<and> c2 = c1)"
  by (simp add: drain_queue_eq publish_all_append)

theorem consume_latest_freshest_witness:
  "[Fin 1, Fin 2, Fin 3] \<noteq> []
   \<and> fst (drain_queue (publish_all [Fin 1, Fin 2, Fin 3] []) (Fin (- 1))) = Fin 3"
  using consume_latest_freshest [of "[Fin 1, Fin 2, Fin 3]" "[]" "Fin (- 1)"] by simp

text \<open>
  C8, as stated: the channel never holds more than one pending sample. It fails: after
  two publishes with no consume in between the queue holds two samples.
\<close>

theorem single_slot_counterexample:
  "qsize (queue_put (Fin 2) (queue_put (Fin 1) [])) = 2
   \<and> \<not> qsize (queue_put (Fin 2) (queue_put (Fin 1) [])) \<le> 1"
  by (simp add: qsize_def queue_put_def)

text \<open>
  C8, amended. The channel is an unbounded FIFO queue: a publish appends, so the number
  of pending samples grows by one with every publish (it is the number pending before
  plus the number of publishes); a consume removes all of them and keeps the newest.
\<close>

theorem queue_backlog_grows_until_drained:
  "qsize (publish_all vs q) = qsize q + length vs
   \<and> publish_all vs q = q @ vs
   \<and> snd (drain_queue (publish_all vs q) previous) = []
   \<and> fst (drain_queue (publish_all (vs @ [v]) q) previous) = v"
  by (simp add: qsize_def publish_all_append drain_queue_eq)

section \<open>Properties of the decoder and of the read loop\<close>

lemma py_split_ne: "py_split sep s \<noteq> []"
  by (induction s) (auto split: list.splits)

lemma py_split_prefix_sep:
  "sep \<notin> set p \<Longrightarrow> py_split sep (p @ sep # r) = p # py_split sep r"
  by (induction p) (auto split: list.splits)

lemma dropWhile_rev_keep:
  "\<not> P x \<Longrightarrow> \<exists>r'. rev (dropWhile P (rev (p @ x # r))) = p @ x # r'"
proof (induction r rule: rev_induct)
  case Nil then show ?case by simp
next
  case (snoc y ys)
  then show ?case by (cases "P y") auto
qed

lemma py_strip_distance:
  assumes "py_startswith line ''DISTANCE:''"
  shows "\<exists>r'. py_strip line = ''DISTANCE'' @ CHR '':'' # r'"
proof -
  from assms obtain r where l: "line = ''DISTANCE'' @ CHR '':'' # r"
    unfolding py_startswith_def
    by (metis append_take_drop_id append.assoc append_Cons append_Nil)
  have "dropWhile py_isspace line = line" unfolding l by (simp add: py_isspace_def)
  moreover have "\<not> py_isspace (CHR '':'')" by (simp add: py_isspace_def)
  ultimately show ?thesis unfolding py_strip_def l
    using dropWhile_rev_keep [of py_isspace "CHR '':''" "''DISTANCE''" r] by simp
qed

lemma py_index_distance:
  assumes "py_startswith line ''DISTANCE:''"
  shows "\<exists>field. py_index (py_split (CHR '':'') (py_strip line)) 1 = Inr field"
proof -
  from py_strip_distance [OF assms] obtain r' where
    "py_strip line = ''DISTANCE'' @ CHR '':'' # r'" by blast
  then have "py_split (CHR '':'') (py_strip line) = ''DISTANCE'' # py_split (CHR '':'') r'"
    using py_split_prefix_sep [of "CHR '':''" "''DISTANCE''" r'] by simp
  then show ?thesis using py_split_ne [of "CHR '':''" r']
    by (cases "py_split (CHR '':'') r'") (simp_all add: py_index_def)
qed

lemma handle_stdout_line_total: "\<exists>s'. handle_stdout_line float_of line s = Inr s'"
  using py_index_distance [of line]
  by (auto simp: handle_stdout_line_def split: option.splits sum.splits)

lemma recvfrom_length_ne: "length payload \<noteq> calcsize_f \<Longrightarrow> length (recvfrom 1024 payload) \<noteq> calcsize_f"
  by (auto simp: recvfrom_def calcsize_f_def min_def)

lemma handle_stdout_line_discards:
  assumes "\<not> py_startswith line ''DISTANCE:''
           \<or> (\<exists>field. py_index (py_split (CHR '':'') (py_strip line)) 1 = Inr field
                 \<and> float_of field = None)"
  shows "\<exists>s'. handle_stdout_line float_of line s = Inr s'
               \<and> queue s' = queue s \<and> stop_event s' = stop_event s"
  using assms
  by (auto simp: handle_stdout_line_def logging_info_def)


text \<open>
  What holds of malformed input. A UDP payload whose length is not 4 bytes produces no
  stdout line, only a log call, and the reception loop goes on with the next datagram.
  A decoded stdout line that lacks the prefix \<open>DISTANCE:\<close>, or whose field between the
  first and the second colon of the stripped line is rejected by \<open>float\<close>, is logged and
  discarded: nothing is put on the queue, \<open>stop_event\<close> is untouched and the read loop
  goes on with the next wake.
\<close>

lemma malformed_input_discarded:
  "(length payload \<noteq> calcsize_f \<longrightarrow>
      stdout_lines (receive_one unpack_f str_f (Datagram payload)) = []
      \<and> reception_loop unpack_f str_f (Datagram payload # rs)
          = LogMalformedPacket (length (recvfrom 1024 payload)) # reception_loop unpack_f str_f rs)
   \<and> (\<not> py_startswith line ''DISTANCE:''
        \<or> (\<exists>field. py_index (py_split (CHR '':'') (py_strip line)) 1 = Inr field
              \<and> float_of field = None) \<longrightarrow>
        (\<exists>s'. handle_ready float_of (ChildStdout ms (Line line)) s = Inr s'
              \<and> queue s' = queue s \<and> stop_event s' = stop_event s
              \<and> (\<not> stop_event s \<longrightarrow>
                   main_loop float_of
                     (\<lparr>poll_wait = 0, ready_fds = [ChildStdout ms (Line line)],
                       child_exited = False, remaining_stderr = Line []\<rparr> # ws) s
                   = main_loop float_of ws s')))"
proof (intro conjI impI)
  assume "length payload \<noteq> calcsize_f"
  then have n: "length (recvfrom 1024 payload) \<noteq> calcsize_f" by (rule recvfrom_length_ne)
  then show "stdout_lines (receive_one unpack_f str_f (Datagram payload)) = []"
    by (simp add: receive_one_def stdout_lines_def)
  from n show "reception_loop unpack_f str_f (Datagram payload # rs)
          = LogMalformedPacket (length (recvfrom 1024 payload)) # reception_loop unpack_f str_f rs"
    by (simp add: receive_one_def)
next
  assume "\<not> py_startswith line ''DISTANCE:''
        \<or> (\<exists>field. py_index (py_split (CHR '':'') (py_strip line)) 1 = Inr field
              \<and> float_of field = None)"
  from handle_stdout_line_discards [OF this, of "wait_ms ms s"] obtain s' where
    "handle_stdout_line float_of line (wait_ms ms s) = Inr s'"
    "queue s' = queue s" "stop_event s' = stop_event s"
    by (auto simp: wait_ms_def)
  then show "\<exists>s'. handle_ready float_of (ChildStdout ms (Line line)) s = Inr s'
              \<and> queue s' = queue s \<and> stop_event s' = stop_event s
              \<and> (\<not> stop_event s \<longrightarrow>
                   main_loop float_of
                     (\<lparr>poll_wait = 0, ready_fds = [ChildStdout ms (Line line)],
                       child_exited = False, remaining_stderr = Line []\<rparr> # ws) s
                   = main_loop float_of ws s')"
    by (simp add: poll_def wait_ms_def)
qed

text \<open>
  C7. Malformed input must be logged and discarded without aborting either loop: no
  child stdout line that is not \<open>DISTANCE:\<close> followed by a float may be published or end
  the supervisor. The read loop breaks this in two places. The line
  \<open>DISTANCE:2.5:junk\<close> has the prefix, and the text after the prefix, \<open>2.5:junk\<close>, is
  rejected by \<open>float\<close>; but only the field up to the second colon is parsed, so 2.5 is
  put on the queue. And a stdout line whose bytes cannot be decoded makes \<open>readline()\<close>
  raise \<open>UnicodeDecodeError\<close> outside every handler, which ends the loop.
\<close>

theorem stdout_line_defects:
  "py_startswith (''DISTANCE:2.5:junk'' @ [CHR 0x0A]) ''DISTANCE:''
   \<and> py_float (drop (length ''DISTANCE:'') (''DISTANCE:2.5:junk'' @ [CHR 0x0A])) = None
   \<and> py_float ''2.5'' = Some (Fin 2.5)
   \<and> handle_ready py_float (ChildStdout 0 (Line (''DISTANCE:2.5:junk'' @ [CHR 0x0A])))
        \<lparr>stop_event = False, queue = [], log = [], elapsed = 0\<rparr>
      = Inr \<lparr>stop_event = False, queue = [Fin 2.5], log = [LogPut (Fin 2.5)], elapsed = 0\<rparr>
   \<and> main_loop py_float
        [\<lparr>poll_wait = 0, ready_fds = [ChildStdout 0 DecodeError], child_exited = False,
          remaining_stderr = Line []\<rparr>]
        \<lparr>stop_event = False, queue = [], log = [], elapsed = 0\<rparr>
      = Inl UnicodeDecodeError"
  by code_simp

section \<open>Basic facts about the session controller\<close>

lemma emit_fields [simp]:
  "trace (emit e s) = trace s @ [e]" "clock (emit e s) = clock s" "con (emit e s) = con s"
  "input_data (emit e s) = input_data s" "current_distance (emit e s) = current_distance s"
  "previous_speed_fraction (emit e s) = previous_speed_fraction s"
  "distance_queue (emit e s) = distance_queue s"
  by (simp_all add: emit_def)

lemma sleep_fields [simp]:
  "trace (sleep ms s) = trace s @ [Sleep ms]" "clock (sleep ms s) = clock s + ms"
  "con (sleep ms s) = con s" "input_data (sleep ms s) = input_data s"
  "current_distance (sleep ms s) = current_distance s"
  "previous_speed_fraction (sleep ms s) = previous_speed_fraction s"
  "distance_queue (sleep ms s) = distance_queue s"
  by (simp_all add: sleep_def)

lemma con_call_fields [simp]:
  "trace (con_call e up s) = trace s @ [e]" "clock (con_call e up s) = clock s"
  "con (con_call e up s) = Some up" "input_data (con_call e up s) = input_data s"
  "current_distance (con_call e up s) = current_distance s"
  "previous_speed_fraction (con_call e up s) = previous_speed_fraction s"
  "distance_queue (con_call e up s) = distance_queue s"
  by (simp_all add: con_call_def)

lemma is_connected_simps [simp]:
  "is_connected (sleep ms s) = is_connected s"
  "is_connected (con_call e up s) = up"
  "is_connected (s\<lparr>con := Some b\<rparr>) = b"
  "is_connected (s\<lparr>con := None\<rparr>) = False"
  by (simp_all add: is_connected_def)

lemma is_set_mono: "is_set stop_at s \<Longrightarrow> clock s \<le> clock s' \<Longrightarrow> is_set stop_at s'"
  by (auto simp: is_set_def split: option.splits)

lemma is_set_con_call [simp]: "is_set stop_at (con_call e up s) = is_set stop_at s"
  by (simp add: is_set_def split: option.splits)

lemma is_set_None [simp]: "\<not> is_set None s"
  by (simp add: is_set_def)

lemma and_then_Normal_iff:
  "and_then p f = (Normal, s') \<longleftrightarrow> (\<exists>s1. p = (Normal, s1) \<and> f s1 = (Normal, s'))"
  by (cases p; cases "fst p") auto

lemma and_then_cases:
  "and_then p f = (if fst p = Normal then f (snd p) else p)"
  by (cases p; cases "fst p") auto

lemma same_locals_simps [simp]:
  "same_locals s s" "same_locals s (sleep ms s') = same_locals s s'"
  "same_locals s (con_call e up s') = same_locals s s'"
  "same_locals s (s'\<lparr>con := c\<rparr>) = same_locals s s'"
  "same_locals (sleep ms s) s' = same_locals s s'"
  "same_locals (con_call e up s) s' = same_locals s s'"
  "same_locals (s\<lparr>con := c\<rparr>) s' = same_locals s s'"
  by (simp_all add: same_locals_def)

lemma same_locals_trans: "same_locals s s1 \<Longrightarrow> same_locals s1 s2 \<Longrightarrow> same_locals s s2"
  by (simp add: same_locals_def)

subsection \<open>The connection loop\<close>

lemma connect_loop_trace:
  "\<exists>C. trace (snd (connect_loop stop_at reply r s)) = trace s @ C
       \<and> set C \<subseteq> {Connect, Sleep 2000} \<and> connects C \<le> MAX_RETRIES - r
       \<and> same_locals s (snd (connect_loop stop_at reply r s))"
proof (induction stop_at reply r s rule: connect_loop.induct)
  case (1 stop_at reply r s)
  show ?case
  proof (cases "\<not> is_connected s \<and> \<not> is_set stop_at s")
    case False
    then have "connect_loop stop_at reply r s = (Normal, s)"
      by (subst connect_loop.simps) auto
    then show ?thesis by (simp add: connects_def)
  next
    case run: True
    show ?thesis
    proof (cases "r \<ge> MAX_RETRIES")
      case True
      with run have "connect_loop stop_at reply r s = (Raised ConnectionRefusedError, s)"
        by (subst connect_loop.simps) auto
      then show ?thesis by (simp add: connects_def)
    next
      case lt: False
      let ?s1 = "con_call Connect (snd (reply r)) s"
      show ?thesis
      proof (cases "\<exists>u. fst (reply r) = Returns u \<and> is_connected ?s1")
        case True
        with run lt have "connect_loop stop_at reply r s = (Normal, ?s1)"
          by (subst connect_loop.simps) (auto simp: Let_def)
        moreover have "connects [Connect] \<le> MAX_RETRIES - r"
          using lt by (simp add: connects_def)
        ultimately show ?thesis by simp
      next
        case False
        then have eq: "connect_loop stop_at reply r s
                     = connect_loop stop_at reply (r + 1) (sleep 2000 ?s1)"
          using run lt by (subst connect_loop.simps) (auto simp: Let_def split: call.splits)
        have "\<exists>C. trace (snd (connect_loop stop_at reply (r + 1) (sleep 2000 ?s1)))
                    = trace (sleep 2000 ?s1) @ C
                 \<and> set C \<subseteq> {Connect, Sleep 2000} \<and> connects C \<le> MAX_RETRIES - (r + 1)
                 \<and> same_locals (sleep 2000 ?s1) (snd (connect_loop stop_at reply (r + 1) (sleep 2000 ?s1)))"
        proof (cases "fst (reply r)")
          case (Raises e)
          show ?thesis by (rule "1.IH"(1) [OF run lt refl Raises])
        next
          case (Returns u)
          with False have "\<not> is_connected ?s1" by simp
          then show ?thesis by (rule "1.IH"(2) [OF run lt refl Returns])
        qed
        then obtain C where C: "trace (snd (connect_loop stop_at reply (r + 1) (sleep 2000 ?s1)))
                    = trace (sleep 2000 ?s1) @ C" "set C \<subseteq> {Connect, Sleep 2000}"
              "connects C \<le> MAX_RETRIES - (r + 1)"
              "same_locals (sleep 2000 ?s1) (snd (connect_loop stop_at reply (r + 1) (sleep 2000 ?s1)))"
          by blast
        have "trace (snd (connect_loop stop_at reply r s)) = trace s @ (Connect # Sleep 2000 # C)"
          using C(1) eq by simp
        moreover have "set (Connect # Sleep 2000 # C) \<subseteq> {Connect, Sleep 2000}" using C(2) by auto
        moreover have "connects (Connect # Sleep 2000 # C) \<le> MAX_RETRIES - r"
          using C(3) lt by (simp add: connects_def)
        moreover have "same_locals s (snd (connect_loop stop_at reply r s))"
          using C(4) eq by simp
        ultimately show ?thesis by blast
      qed
    qed
  qed
qed

lemma connect_phase_effect:
  "\<exists>C. trace (snd (connect_phase stop_at reply s)) = trace s @ C
       \<and> set C \<subseteq> {Connect, Sleep 2000} \<and> connects C \<le> MAX_RETRIES
       \<and> same_locals s (snd (connect_phase stop_at reply s))"
proof -
  let ?s0 = "s\<lparr>con := Some False\<rparr>"
  from connect_loop_trace [of stop_at reply 0 ?s0] obtain C where
    C: "trace (snd (connect_loop stop_at reply 0 ?s0)) = trace ?s0 @ C"
       "set C \<subseteq> {Connect, Sleep 2000}" "connects C \<le> MAX_RETRIES - 0"
       "same_locals ?s0 (snd (connect_loop stop_at reply 0 ?s0))" by blast
  have "snd (connect_phase stop_at reply s) = snd (connect_loop stop_at reply 0 ?s0)"
    by (simp add: connect_phase_def and_then_cases)
  with C show ?thesis by auto
qed

lemma connect_phase_Normal:
  "connect_phase stop_at reply s = (Normal, s') \<Longrightarrow> is_connected s'"
  by (auto simp: connect_phase_def and_then_cases split: if_splits)

lemma hasattr_setattr [simp]: "hasattr (setattr obj n v) m = (hasattr obj m \<or> m = n)"
  by (induction obj n v rule: setattr.induct) (auto simp: hasattr_def)

lemma getattr_setattr_same [simp]: "getattr (setattr obj n v) n = Some v"
  by (induction obj n v rule: setattr.induct) (auto simp: getattr_def)

lemma getattr_setattr_other: "m \<noteq> n \<Longrightarrow> getattr (setattr obj n v) m = getattr obj m"
  by (induction obj n v rule: setattr.induct) (auto simp: getattr_def)

lemma input_setup_effect:
  "fst (input_setup env s) = Normal \<longleftrightarrow> input_ok env"
  "trace (snd (input_setup env s)) = trace s @ [SendInputSetup]"
  "clock (snd (input_setup env s)) = clock s"
  "current_distance (snd (input_setup env s)) = current_distance s"
  "previous_speed_fraction (snd (input_setup env s)) = previous_speed_fraction s"
  "distance_queue (snd (input_setup env s)) = distance_queue s"
  by (auto simp: input_setup_def input_ok_def Let_def split: call.splits option.splits)

lemma input_setup_data:
  "fst (input_setup env s) = Normal \<Longrightarrow>
     \<exists>obj. input_data (snd (input_setup env s)) = Some obj
        \<and> (hasattr obj ''speed_slider_fraction'' \<longrightarrow>
             getattr obj ''speed_slider_fraction'' = Some (PNum VELOCITY_OVER_3M_THRESHOLD))"
  by (auto simp: input_setup_def Let_def split: call.splits option.splits)

lemma output_setup_effect:
  "fst (output_setup env s) = Normal \<longleftrightarrow> output_ok env"
  "trace (snd (output_setup env s)) = trace s @ [SendOutputSetup RTDE_FREQUENCY]"
  "clock (snd (output_setup env s)) = clock s"
  "input_data (snd (output_setup env s)) = input_data s"
  "current_distance (snd (output_setup env s)) = current_distance s"
  "previous_speed_fraction (snd (output_setup env s)) = previous_speed_fraction s"
  "distance_queue (snd (output_setup env s)) = distance_queue s"
  by (auto simp: output_setup_def output_ok_def Let_def split: call.splits)

lemma start_sync_effect:
  "fst (start_sync env s) = Normal \<longleftrightarrow> start_ok env"
  "trace (snd (start_sync env s)) = trace s @ [SendStart]"
  "clock (snd (start_sync env s)) = clock s"
  "input_data (snd (start_sync env s)) = input_data s"
  "current_distance (snd (start_sync env s)) = current_distance s"
  "previous_speed_fraction (snd (start_sync env s)) = previous_speed_fraction s"
  "distance_queue (snd (start_sync env s)) = distance_queue s"
  by (auto simp: start_sync_def start_ok_def Let_def split: call.splits)

lemma handshake_Normal_iff:
  "fst (handshake env s) = Normal \<longleftrightarrow> input_ok env \<and> output_ok env \<and> start_ok env"
  by (simp add: handshake_def and_then_cases input_setup_effect output_setup_effect
        start_sync_effect)

lemma handshake_trace:
  "trace (snd (handshake env s)) = trace s @ take (steps_attempted env) handshake_steps"
  by (simp add: handshake_def and_then_cases input_setup_effect output_setup_effect
        start_sync_effect steps_attempted_def handshake_steps_def)

lemma handshake_locals:
  "clock (snd (handshake env s)) = clock s"
  "current_distance (snd (handshake env s)) = current_distance s"
  "previous_speed_fraction (snd (handshake env s)) = previous_speed_fraction s"
  "distance_queue (snd (handshake env s)) = distance_queue s"
  by (simp_all add: handshake_def and_then_cases input_setup_effect output_setup_effect
        start_sync_effect)

lemma handshake_data:
  assumes "fst (handshake env s) = Normal"
  shows "\<exists>obj. input_data (snd (handshake env s)) = Some obj
        \<and> (hasattr obj ''speed_slider_fraction'' \<longrightarrow>
             getattr obj ''speed_slider_fraction'' = Some (PNum VELOCITY_OVER_3M_THRESHOLD))"
proof -
  from assms have ok: "input_ok env" "output_ok env" "start_ok env"
    by (simp_all add: handshake_Normal_iff)
  then have "input_data (snd (handshake env s)) = input_data (snd (input_setup env s))"
    by (simp add: handshake_def and_then_cases input_setup_effect output_setup_effect
        start_sync_effect)
  moreover from ok have "fst (input_setup env s) = Normal" by (simp add: input_setup_effect)
  ultimately show ?thesis using input_setup_data [of env s] by simp
qed

subsection \<open>Teardown\<close>

lemma teardown_effect:
  "con (teardown env s) = None"
  "clock (teardown env s) = clock s + 30000"
  "same_locals s (teardown env s)"
  "\<exists>T. trace (teardown env s) = trace s @ T @ [Sleep 30000] \<and> set T \<subseteq> {SendPause, Disconnect}"
  by (auto simp: teardown_def Let_def split: call.splits)


subsection \<open>One pass of the cyclic loop\<close>

lemma consume_latest_fields [simp]:
  "trace (consume_latest s) = trace s" "clock (consume_latest s) = clock s"
  "con (consume_latest s) = con s" "input_data (consume_latest s) = input_data s"
  "previous_speed_fraction (consume_latest s) = previous_speed_fraction s"
  "distance_queue (consume_latest s) = []"
  "current_distance (consume_latest s)
     = (if distance_queue s = [] then current_distance s else last (distance_queue s))"
  by (simp_all add: consume_latest_def drain_queue_eq)

lemma sent_fractions_append [simp]:
  "sent_fractions (a @ b) = sent_fractions a @ sent_fractions b"
  by (simp add: sent_fractions_def sent_objects_def)

lemma sent_fractions_single [simp]:
  "sent_fractions [Send obj] = [getattr obj ''speed_slider_fraction'']"
  "sent_fractions [Sleep ms] = []" "sent_fractions [Receive] = []"
  "sent_fractions [] = []"
  by (simp_all add: sent_fractions_def sent_objects_def)

lemma send_if_changed_sent:
  "sent_fractions (trace (snd (send_if_changed rep new s)))
     = sent_fractions (trace s)
       @ (if has_fraction_field s \<and> new \<noteq> previous_speed_fraction s then [Some (PNum new)] else [])"
  by (auto simp: send_if_changed_def has_fraction_field_def Let_def split: option.splits call.splits)

lemma send_if_changed_field:
  "has_fraction_field (snd (send_if_changed rep new s)) = has_fraction_field s"
  by (auto simp: send_if_changed_def has_fraction_field_def Let_def split: option.splits call.splits)

lemma send_if_changed_previous:
  "fst (send_if_changed rep new s) = Normal \<Longrightarrow> has_fraction_field s \<Longrightarrow>
     previous_speed_fraction (snd (send_if_changed rep new s)) = new"
  by (auto simp: send_if_changed_def has_fraction_field_def Let_def split: option.splits call.splits if_splits)

lemma send_if_changed_not_Unfinished:
  "fst (send_if_changed rep new s) \<noteq> Unfinished"
  by (auto simp: send_if_changed_def Let_def split: option.splits call.splits)

lemma has_fraction_field_simps [simp]:
  "has_fraction_field (sleep ms s) = has_fraction_field s"
  "has_fraction_field (con_call e up s) = has_fraction_field s"
  "has_fraction_field (consume_latest s) = has_fraction_field s"
  "has_fraction_field (s\<lparr>distance_queue := q\<rparr>) = has_fraction_field s"
  by (simp_all add: has_fraction_field_def)

lemma cycle_sent:
  "sent_fractions (trace (snd (cycle c s)))
     = sent_fractions (trace s)
       @ (if has_fraction_field s then
            concat (map (\<lambda>f. if f \<noteq> previous_speed_fraction s then [Some (PNum f)] else [])
                      (cycle_fraction c s))
          else [])"
  by (auto simp: cycle_def cycle_fraction_def Let_def send_if_changed_sent
           split: call.splits option.splits)

lemma cycle_field: "has_fraction_field (snd (cycle c s)) = has_fraction_field s"
  by (auto simp: cycle_def Let_def send_if_changed_field split: call.splits option.splits)

lemma cycle_previous:
  "fst (cycle c s) = Normal \<Longrightarrow> has_fraction_field s \<Longrightarrow>
     previous_speed_fraction (snd (cycle c s)) = last (previous_speed_fraction s # cycle_fraction c s)"
  by (auto simp: cycle_def cycle_fraction_def Let_def send_if_changed_previous
           split: call.splits option.splits)

lemma cycle_not_Unfinished: "fst (cycle c s) \<noteq> Unfinished"
  by (auto simp: cycle_def Let_def send_if_changed_not_Unfinished split: call.splits option.splits)

lemma cycle_fraction_length: "cycle_fraction c s = [] \<or> (\<exists>f. cycle_fraction c s = [f])"
  by (auto simp: cycle_fraction_def split: call.splits option.splits)

lemma remdups_adj_hd: "remdups_adj (f # fs) = f # tl (remdups_adj (f # fs))"
  by (cases fs) auto

lemma run_heads_step:
  "tl (remdups_adj (p # f # fs))
     = (if f \<noteq> p then [f] else []) @ tl (remdups_adj (f # fs))"
  using remdups_adj_hd [of f fs] by auto

lemma cyclic_loop_sent:
  "has_fraction_field s \<Longrightarrow>
   sent_fractions (trace (snd (cyclic_loop stop_at cs s)))
     = sent_fractions (trace s)
       @ map (\<lambda>f. Some (PNum f))
           (tl (remdups_adj (previous_speed_fraction s # computed_fractions stop_at cs s)))"
proof (induction cs arbitrary: s)
  case Nil
  then show ?case by simp
next
  case (Cons c cs)
  show ?case
  proof (cases "\<not> is_set stop_at s \<and> is_connected s")
    case False
    then have "cyclic_loop stop_at (c # cs) s = (Normal, s)"
      "computed_fractions stop_at (c # cs) s = []" by auto
    then show ?thesis by simp
  next
    case run: True
    obtain r s' where cy: "cycle c s = (r, s')" by (cases "cycle c s")
    have sent: "sent_fractions (trace s') = sent_fractions (trace s)
       @ concat (map (\<lambda>f. if f \<noteq> previous_speed_fraction s then [Some (PNum f)] else [])
                      (cycle_fraction c s))"
      using cycle_sent [of c s] cy Cons.prems by simp
    show ?thesis
    proof (cases "r = Normal")
      case True
      let ?s2 = "sleep cycle_period_ms s'"
      have f2: "has_fraction_field ?s2" using cycle_field [of c s] cy Cons.prems by simp
      have p2: "previous_speed_fraction ?s2 = last (previous_speed_fraction s # cycle_fraction c s)"
        using cycle_previous [of c s] cy True Cons.prems by simp
      have loop: "cyclic_loop stop_at (c # cs) s = cyclic_loop stop_at cs ?s2"
        using run cy True by simp
      have comp: "computed_fractions stop_at (c # cs) s
                = cycle_fraction c s @ computed_fractions stop_at cs ?s2"
        using run cy True by simp
      from cycle_fraction_length [of c s] show ?thesis
      proof
        assume e: "cycle_fraction c s = []"
        show ?thesis unfolding loop comp
          using Cons.IH [OF f2] sent p2 by (simp add: e)
      next
        assume "\<exists>f. cycle_fraction c s = [f]"
        then obtain f where e: "cycle_fraction c s = [f]" by blast
        define ys where "ys = tl (remdups_adj (f # computed_fractions stop_at cs ?s2))"
        have ys: "remdups_adj (f # computed_fractions stop_at cs ?s2) = f # ys"
          unfolding ys_def by (rule remdups_adj_hd)
        show ?thesis
        proof (cases "f = previous_speed_fraction s")
          case True
          show ?thesis unfolding loop comp
            using Cons.IH [OF f2] sent p2 True by (simp add: e)
        next
          case False
          show ?thesis unfolding loop comp
            using Cons.IH [OF f2] sent p2 False by (simp add: e ys)
        qed
      qed
    next
      case False
      then have loop: "cyclic_loop stop_at (c # cs) s = (r, s')"
        using run cy by (cases r) simp_all
      have comp: "computed_fractions stop_at (c # cs) s = cycle_fraction c s"
        using run cy False by (cases r) simp_all
      show ?thesis unfolding loop comp
        using cycle_fraction_length [of c s] sent by auto
    qed
  qed
qed

section \<open>Properties of the cyclic exchange loop\<close>

text \<open>
  C3, as stated: a send occurs in a cycle if and only if the newly computed fraction
  differs from the previously sent one. It fails: with an input record that has no
  \<open>speed_slider_fraction\<close> field, a cycle that computes 0.0 while the previously sent
  fraction is -1.0 issues the receive and nothing else.
\<close>

theorem change_gate_counterexample:
  "cycle_fraction
      \<lparr>published = [Fin 0.5], receive_reply = (Returns (Some ()), True),
       send_reply = (Returns True, True)\<rparr>
      (init_controller\<lparr>con := Some True, input_data := Some [(''speed_slider_mask'', PNum 1)]\<rparr>)
    = [0]
   \<and> previous_speed_fraction
        (init_controller\<lparr>con := Some True, input_data := Some [(''speed_slider_mask'', PNum 1)]\<rparr>)
      = - 1
   \<and> trace (snd (cycle
        \<lparr>published = [Fin 0.5], receive_reply = (Returns (Some ()), True),
         send_reply = (Returns True, True)\<rparr>
        (init_controller\<lparr>con := Some True, input_data := Some [(''speed_slider_mask'', PNum 1)]\<rparr>)))
      = [Receive]"
  by (simp add: cycle_fraction_def cycle_def init_controller_def publish_all_append
        calculate_speed_fraction_def velocity_defs send_if_changed_def hasattr_def)

text \<open>
  C3, amended. A pass of the loop transmits if and only if it received a state packet
  (so that a fraction was computed), the input record has a \<open>speed_slider_fraction\<close>
  field, and the computed fraction differs from the previously sent one; what it then
  sends is that fraction. Over a whole run of the loop with such a record, the sequence
  of fractions sent is the sequence of computed fractions with adjacent repetitions
  removed (leaving out the first if it equals the fraction sent before the loop): one
  transmission for each maximal run of equal computed fractions, at its first cycle.
\<close>

theorem change_gated_transmission:
  "(sent_fractions (trace (snd (cycle c s))) \<noteq> sent_fractions (trace s)
      \<longleftrightarrow> has_fraction_field s
          \<and> (\<exists>f. cycle_fraction c s = [f] \<and> f \<noteq> previous_speed_fraction s))
   \<and> (\<forall>f. has_fraction_field s \<and> cycle_fraction c s = [f] \<and> f \<noteq> previous_speed_fraction s
          \<longrightarrow> sent_fractions (trace (snd (cycle c s))) = sent_fractions (trace s) @ [Some (PNum f)])
   \<and> (has_fraction_field s \<longrightarrow>
        sent_fractions (trace (snd (cyclic_loop stop_at cs s)))
          = sent_fractions (trace s)
            @ map (\<lambda>f. Some (PNum f))
                (tl (remdups_adj (previous_speed_fraction s # computed_fractions stop_at cs s))))"
proof (intro conjI allI impI)
  show "(sent_fractions (trace (snd (cycle c s))) \<noteq> sent_fractions (trace s))
      = (has_fraction_field s
          \<and> (\<exists>f. cycle_fraction c s = [f] \<and> f \<noteq> previous_speed_fraction s))"
    using cycle_fraction_length [of c s] by (auto simp: cycle_sent)
next
  fix f
  assume "has_fraction_field s \<and> cycle_fraction c s = [f] \<and> f \<noteq> previous_speed_fraction s"
  then show "sent_fractions (trace (snd (cycle c s))) = sent_fractions (trace s) @ [Some (PNum f)]"
    by (simp add: cycle_sent)
next
  assume "has_fraction_field s"
  then show "sent_fractions (trace (snd (cyclic_loop stop_at cs s)))
          = sent_fractions (trace s)
            @ map (\<lambda>f. Some (PNum f))
                (tl (remdups_adj (previous_speed_fraction s # computed_fractions stop_at cs s)))"
    by (rule cyclic_loop_sent)
qed

lemma example_fractions: "computed_fractions None
      [example_cycle [], example_cycle [Fin 0.5], example_cycle [],
       example_cycle [Fin 2.5], example_cycle [Fin 2.7]] streaming_state = [1, 0, 0, 0.7, 0.7]"
  by code_simp

lemma example_first_fraction: "cycle_fraction (example_cycle []) streaming_state = [1]"
  by code_simp

lemma example_has_field:
  "has_fraction_field streaming_state" "previous_speed_fraction streaming_state = - 1"
  "trace streaming_state = []"
  by code_simp+

theorem change_gated_transmission_witness:
  "has_fraction_field streaming_state
   \<and> cycle_fraction (example_cycle []) streaming_state = [1]
   \<and> 1 \<noteq> previous_speed_fraction streaming_state
   \<and> sent_fractions (trace (snd (cycle (example_cycle []) streaming_state))) = [Some (PNum 1)]
   \<and> sent_fractions (trace (snd (cyclic_loop None
        [example_cycle [], example_cycle [Fin 0.5], example_cycle [],
         example_cycle [Fin 2.5], example_cycle [Fin 2.7]] streaming_state)))
      = [Some (PNum 1), Some (PNum 0), Some (PNum 0.7)]"
  using change_gated_transmission [of "example_cycle []" streaming_state None
      "[example_cycle [], example_cycle [Fin 0.5], example_cycle [],
        example_cycle [Fin 2.5], example_cycle [Fin 2.7]]"]
    example_fractions example_first_fraction example_has_field
  by simp

text \<open>
  C10, as stated: on the first cycle in which a state packet is received a transmission
  always occurs. It fails: when the input recipe has no \<open>speed_slider_fraction\<close> field
  the first session of the thread connects, completes the handshake, receives a state
  packet, computes a fraction that differs from -1.0, and sends nothing.
\<close>

theorem first_cycle_counterexample:
  "calculate_speed_fraction (current_distance init_controller)
     \<noteq> previous_speed_fraction init_controller
   \<and> trace (snd (run_rtde_controller None
        [example_env no_fraction_object [example_cycle []]] init_controller))
     = [Connect, SendInputSetup, SendOutputSetup 100, SendStart, Receive, Sleep 10]"
  by code_simp

lemma load_config_effect:
  "load_config env s = (Normal, s') \<Longrightarrow> s' = s \<and> config_loads env"
  by (auto simp: load_config_def split: if_splits)

lemma handshake_sent: "sent_fractions (trace (snd (handshake env s))) = sent_fractions (trace s)"
  by (cases "steps_attempted env = 1"; cases "steps_attempted env = 2")
     (auto simp: handshake_trace handshake_steps_def steps_attempted_def sent_fractions_def
        sent_objects_def split: if_splits)

lemma sent_fractions_connect:
  "set C \<subseteq> {Connect, Sleep 2000} \<Longrightarrow> sent_fractions C = []"
  by (induction C) (auto simp: sent_fractions_def sent_objects_def)

lemma first_handshake_state:
  assumes "and_then (and_then (connect_phase stop_at (connect_reply env) init_controller)
              (load_config env)) (handshake env) = (Normal, s)"
  shows "current_distance s = Fin (- 1) \<and> previous_speed_fraction s = - 1
         \<and> distance_queue s = [] \<and> sent_fractions (trace s) = []"
proof -
  from assms obtain s1 s2 where
    c: "connect_phase stop_at (connect_reply env) init_controller = (Normal, s1)"
    and l: "load_config env s1 = (Normal, s2)" and h: "handshake env s2 = (Normal, s)"
    by (auto simp: and_then_Normal_iff)
  from connect_phase_effect [of stop_at "connect_reply env" init_controller] c
  obtain C where C: "trace s1 = trace init_controller @ C" "set C \<subseteq> {Connect, Sleep 2000}"
    "same_locals init_controller s1" by auto
  from l have s2: "s2 = s1" by (simp add: load_config_effect)
  have "s = snd (handshake env s1)" using h s2 by simp
  then show ?thesis
    using C sent_fractions_connect [OF C(2)]
    by (simp add: handshake_locals handshake_sent same_locals_def init_controller_def)
qed

text \<open>
  C10, amended. After the first successful handshake of the thread the current distance
  and the previously sent fraction still have their initial value -1.0, the queue is as
  the producer left it (empty if nothing was published) and nothing has been sent. A
  pass that receives no state packet changes none of this. With nothing published, the
  first pass that receives a state packet computes the fraction 1.0. Whatever has been
  published, the fraction computed differs from -1.0, so that pass transmits it
  whenever the input record has a \<open>speed_slider_fraction\<close> field.
\<close>

theorem first_cycle_transmits:
  "(and_then (and_then (connect_phase stop_at (connect_reply env) init_controller)
              (load_config env)) (handshake env) = (Normal, s0)
      \<longrightarrow> current_distance s0 = Fin (- 1.0) \<and> previous_speed_fraction s0 = - 1.0
          \<and> distance_queue s0 = [] \<and> sent_fractions (trace s0) = [])
   \<and> (fst (receive_reply c) = Returns None
      \<longrightarrow> fst (cycle c s) = Normal
          \<and> current_distance (snd (cycle c s)) = current_distance s
          \<and> previous_speed_fraction (snd (cycle c s)) = previous_speed_fraction s
          \<and> input_data (snd (cycle c s)) = input_data s
          \<and> sent_fractions (trace (snd (cycle c s))) = sent_fractions (trace s))
   \<and> (fst (receive_reply c) = Returns (Some u) \<and> current_distance s = Fin (- 1.0)
        \<and> distance_queue s = [] \<and> published c = []
      \<longrightarrow> cycle_fraction c s = [1.0])
   \<and> (fst (receive_reply c) = Returns (Some u) \<and> previous_speed_fraction s = - 1.0
        \<and> has_fraction_field s
      \<longrightarrow> (\<exists>f. cycle_fraction c s = [f] \<and> f \<noteq> previous_speed_fraction s
             \<and> sent_fractions (trace (snd (cycle c s)))
                 = sent_fractions (trace s) @ [Some (PNum f)]))"
proof -
  have A: "current_distance s0 = Fin (- 1.0) \<and> previous_speed_fraction s0 = - 1.0
          \<and> distance_queue s0 = [] \<and> sent_fractions (trace s0) = []"
    if "and_then (and_then (connect_phase stop_at (connect_reply env) init_controller)
              (load_config env)) (handshake env) = (Normal, s0)"
    using first_handshake_state [OF that] by simp
  have B: "fst (cycle c s) = Normal
          \<and> current_distance (snd (cycle c s)) = current_distance s
          \<and> previous_speed_fraction (snd (cycle c s)) = previous_speed_fraction s
          \<and> input_data (snd (cycle c s)) = input_data s
          \<and> sent_fractions (trace (snd (cycle c s))) = sent_fractions (trace s)"
    if "fst (receive_reply c) = Returns None"
    using that by (simp add: cycle_def Let_def)
  have C: "cycle_fraction c s = [1.0]"
    if "fst (receive_reply c) = Returns (Some u) \<and> current_distance s = Fin (- 1.0)
        \<and> distance_queue s = [] \<and> published c = []"
    using that
    by (simp add: cycle_fraction_def publish_all_append calculate_speed_fraction_def velocity_defs)
  have D: "\<exists>f. cycle_fraction c s = [f] \<and> f \<noteq> previous_speed_fraction s
             \<and> sent_fractions (trace (snd (cycle c s)))
                 = sent_fractions (trace s) @ [Some (PNum f)]"
    if a: "fst (receive_reply c) = Returns (Some u) \<and> previous_speed_fraction s = - 1.0
        \<and> has_fraction_field s"
  proof -
    from a obtain f where f: "cycle_fraction c s = [f]"
      "f = calculate_speed_fraction (current_distance (consume_latest
             (s\<lparr>distance_queue := publish_all (published c) (distance_queue s)\<rparr>)))"
      by (simp add: cycle_fraction_def)
    then have "f \<noteq> previous_speed_fraction s"
      using a calculate_speed_fraction_ne_minus_one by simp
    with f a show ?thesis by (simp add: cycle_sent)
  qed
  from A B C D show ?thesis by blast
qed

lemma first_streaming_state_reached:
  "and_then (and_then
      (connect_phase None (connect_reply (example_env example_object [])) init_controller)
      (load_config (example_env example_object [])))
    (handshake (example_env example_object [])) = (Normal, first_streaming_state)"
  by code_simp

lemma first_streaming_state_field: "has_fraction_field first_streaming_state"
  by code_simp

lemma example_cycle_replies:
  "fst (receive_reply (example_cycle vs)) = Returns (Some ())"
  "published (example_cycle vs) = vs"
  "fst (receive_reply idle_cycle) = Returns None"
  by (simp_all add: example_cycle_def idle_cycle_def)

theorem first_cycle_transmits_witness:
  "and_then (and_then
      (connect_phase None (connect_reply (example_env example_object [])) init_controller)
      (load_config (example_env example_object [])))
    (handshake (example_env example_object [])) = (Normal, first_streaming_state)
   \<and> fst (receive_reply idle_cycle) = Returns None
   \<and> fst (cycle idle_cycle first_streaming_state) = Normal
   \<and> fst (receive_reply (example_cycle [])) = Returns (Some ())
   \<and> current_distance first_streaming_state = Fin (- 1.0)
   \<and> distance_queue first_streaming_state = []
   \<and> published (example_cycle []) = []
   \<and> previous_speed_fraction first_streaming_state = - 1.0
   \<and> has_fraction_field first_streaming_state
   \<and> cycle_fraction (example_cycle []) first_streaming_state = [1.0]
   \<and> sent_fractions (trace (snd (cycle (example_cycle []) first_streaming_state)))
       = [Some (PNum 1.0)]"
  using first_cycle_transmits [of None "example_env example_object []" first_streaming_state
      idle_cycle first_streaming_state]
    first_cycle_transmits [of None "example_env example_object []" first_streaming_state
      "example_cycle []" first_streaming_state "()"]
    first_streaming_state_reached first_streaming_state_field example_cycle_replies
  by auto

section \<open>Properties of the session state machine\<close>

lemma handshake_outcome: "fst (handshake env s) \<noteq> Unfinished"
  by (auto simp: handshake_def and_then_cases input_setup_def output_setup_def start_sync_def
        Let_def split: call.splits option.splits)

lemma cyclic_filter_connect:
  "set C \<subseteq> {Connect, Sleep 2000} \<Longrightarrow> filter cyclic_event C = []"
  by (induction C) (auto simp: cyclic_event_def)

lemma cyclic_filter_handshake: "filter cyclic_event (take n handshake_steps) = []"
  by (auto simp: handshake_steps_def cyclic_event_def take_Cons split: nat.splits)

lemma cyclic_filter_teardown:
  "filter cyclic_event (trace (teardown env s)) = filter cyclic_event (trace s)"
proof -
  from teardown_effect(4) [of env s] obtain T where
    "trace (teardown env s) = trace s @ T @ [Sleep 30000]" "set T \<subseteq> {SendPause, Disconnect}"
    by blast
  moreover from this(2) have "filter cyclic_event T = []"
    by (induction T) (auto simp: cyclic_event_def)
  ultimately show ?thesis by (simp add: cyclic_event_def)
qed

lemma session_body_split:
  assumes "connect_phase stop_at (connect_reply env) s = (Normal, s1)" "config_loads env"
  shows "session_body stop_at env s
           = and_then (handshake env s1) (cyclic_loop stop_at (cycles env))"
  using assms by (simp add: session_body_def load_config_def)

lemma session_raised:
  assumes "session_body stop_at env s = (Raised e, s2)"
  shows "\<exists>ms. session stop_at env s = (Normal, teardown env (sleep ms s2))
              \<and> ms = (case e of ConnectionRefusedError \<Rightarrow> 10000 | OtherException \<Rightarrow> 5000)"
  using assms by (cases e) (simp_all add: session_def)

lemma connects_append [simp]: "connects (a @ b) = connects a + connects b"
  by (simp add: connects_def)

lemma connects_Nil_Cons [simp]:
  "connects [] = 0" "connects (e # es) = (if e = Connect then 1 else 0) + connects es"
  by (simp_all add: connects_def)

lemma is_set_clock: "clock s = clock s' \<Longrightarrow> is_set stop_at s = is_set stop_at s'"
  by (simp add: is_set_def split: option.splits)

lemma is_set_sleep_mono: "is_set stop_at s \<Longrightarrow> is_set stop_at (sleep ms s)"
  by (rule is_set_mono [of stop_at s]) simp_all

subsection \<open>The clock never goes back; connects happen in the connection loop only\<close>




lemma cycle_connects: "connects (trace (snd (cycle c s))) = connects (trace s)"
  by (auto simp: cycle_def send_if_changed_def Let_def split: call.splits option.splits)


lemma cyclic_loop_connects:
  "connects (trace (snd (cyclic_loop stop_at cs s))) = connects (trace s)"
proof (induction cs arbitrary: s)
  case Nil
  then show ?case by simp
next
  case (Cons c cs)
  obtain r s' where cy: "cycle c s = (r, s')" by (cases "cycle c s")
  then have cl: "connects (trace s') = connects (trace s)" using cycle_connects [of c s] by simp
  show ?case
  proof (cases "\<not> is_set stop_at s \<and> is_connected s")
    case True
    show ?thesis
    proof (cases "r = Normal")
      case n: True
      have "cyclic_loop stop_at (c # cs) s = cyclic_loop stop_at cs (sleep cycle_period_ms s')"
        using True cy n by simp
      with Cons.IH [of "sleep cycle_period_ms s'"] cl show ?thesis by simp
    next
      case False
      then have "cyclic_loop stop_at (c # cs) s = (r, s')" using True cy by (cases r) simp_all
      with cl show ?thesis by simp
    qed
  next
    case False
    then have "cyclic_loop stop_at (c # cs) s = (Normal, s)" by auto
    then show ?thesis by simp
  qed
qed

lemma handshake_connects: "connects (trace (snd (handshake env s))) = connects (trace s)"
  by (cases "steps_attempted env = 1"; cases "steps_attempted env = 2")
     (auto simp: handshake_trace handshake_steps_def steps_attempted_def connects_def
        split: if_splits)

lemma teardown_connects: "connects (trace (teardown env s)) = connects (trace s)"
  by (auto simp: teardown_def Let_def connects_def split: call.splits)

lemma load_config_snd [simp]: "snd (load_config env s) = s"
  by (simp add: load_config_def)

lemma session_body_connects:
  "connects (trace (snd (session_body stop_at env s))) \<le> connects (trace s) + MAX_RETRIES"
proof -
  from connect_phase_effect [of stop_at "connect_reply env" s] obtain C where
    "trace (snd (connect_phase stop_at (connect_reply env) s)) = trace s @ C"
    "connects C \<le> MAX_RETRIES" by blast
  then have "connects (trace (snd (connect_phase stop_at (connect_reply env) s)))
              \<le> connects (trace s) + MAX_RETRIES" by simp
  then show ?thesis
    by (simp add: session_body_def and_then_cases handshake_connects cyclic_loop_connects)
qed


lemma session_outcome: "fst (session stop_at env s) = Normal \<or> fst (session stop_at env s) = Unfinished"
  by (auto simp: session_def split: prod.splits outcome.splits exc.splits)

lemma session_cases:
  assumes "fst (session stop_at env s) = Normal"
  shows "\<exists>ms. snd (session stop_at env s)
            = teardown env (sleep ms (snd (session_body stop_at env s)))
             \<or> snd (session stop_at env s) = teardown env (snd (session_body stop_at env s))"
  using assms by (auto simp: session_def split: prod.splits outcome.splits exc.splits)

lemma session_connects:
  "connects (trace (snd (session stop_at env s))) \<le> connects (trace s) + MAX_RETRIES"
  using session_body_connects [of stop_at env s]
  by (auto simp: session_def teardown_connects split: prod.splits outcome.splits exc.splits)


lemma run_Normal_is_set:
  "run_rtde_controller stop_at envs s = (Normal, s') \<Longrightarrow> is_set stop_at s'"
proof (induction envs arbitrary: s)
  case Nil
  then show ?case by (auto split: if_splits)
next
  case (Cons env envs)
  show ?case
  proof (cases "is_set stop_at s")
    case True
    with Cons.prems show ?thesis by simp
  next
    case False
    obtain r s1 where ss: "session stop_at env s = (r, s1)" by (cases "session stop_at env s")
    with Cons.prems False have "r = Normal" by (cases r) auto
    with Cons.prems False ss have "run_rtde_controller stop_at envs s1 = (Normal, s')" by simp
    then show ?thesis by (rule Cons.IH)
  qed
qed

lemma connect_loop_exhausted:
  assumes "\<forall>i<MAX_RETRIES. \<not> snd (reply i)" "r \<le> MAX_RETRIES" "\<not> is_connected s"
    "\<not> is_set stop_at (s\<lparr>clock := clock s + 2000 * (MAX_RETRIES - r)\<rparr>)"
  shows "\<exists>s'. connect_loop stop_at reply r s = (Raised ConnectionRefusedError, s')
            \<and> trace s' = trace s @ failed_attempts (MAX_RETRIES - r)
            \<and> clock s' = clock s + 2000 * (MAX_RETRIES - r)
            \<and> \<not> is_connected s'"
  using assms
proof (induction "MAX_RETRIES - r" arbitrary: r s)
  case 0
  then have r: "r = MAX_RETRIES" by simp
  have "\<not> is_set stop_at s"
    using "0.prems"(4) is_set_clock [of "s\<lparr>clock := clock s + 2000 * (MAX_RETRIES - r)\<rparr>" s stop_at]
    by (simp add: r)
  then have "connect_loop stop_at reply r s = (Raised ConnectionRefusedError, s)"
    using "0.prems"(3) r by (subst connect_loop.simps) simp
  then show ?case using "0.prems"(3) by (simp add: r failed_attempts_def)
next
  case (Suc n)
  then have lt: "r < MAX_RETRIES" and n: "n = MAX_RETRIES - (r + 1)" by simp_all
  let ?s1 = "con_call Connect (snd (reply r)) s"
  let ?s2 = "sleep 2000 ?s1"
  have down: "\<not> snd (reply r)" using Suc.prems(1) lt by simp
  have ns: "\<not> is_set stop_at s"
  proof
    assume "is_set stop_at s"
    then have "is_set stop_at (s\<lparr>clock := clock s + 2000 * (MAX_RETRIES - r)\<rparr>)"
      by (rule is_set_mono) simp
    with Suc.prems(4) show False by simp
  qed
  have step: "connect_loop stop_at reply r s = connect_loop stop_at reply (r + 1) ?s2"
    using Suc.prems(3) ns lt down
    by (subst connect_loop.simps) (auto simp: Let_def split: call.splits)
  have c2: "clock ?s2 + 2000 * (MAX_RETRIES - (r + 1)) = clock s + 2000 * (MAX_RETRIES - r)"
    using lt by simp
  have "\<not> is_set stop_at (?s2\<lparr>clock := clock ?s2 + 2000 * (MAX_RETRIES - (r + 1))\<rparr>)"
    using Suc.prems(4)
      is_set_clock [of "?s2\<lparr>clock := clock ?s2 + 2000 * (MAX_RETRIES - (r + 1))\<rparr>"
        "s\<lparr>clock := clock s + 2000 * (MAX_RETRIES - r)\<rparr>" stop_at] c2
    by simp
  from Suc.hyps(1) [OF n Suc.prems(1) _ _ this] lt down
  obtain s' where s': "connect_loop stop_at reply (r + 1) ?s2 = (Raised ConnectionRefusedError, s')"
    "trace s' = trace ?s2 @ failed_attempts (MAX_RETRIES - (r + 1))"
    "clock s' = clock ?s2 + 2000 * (MAX_RETRIES - (r + 1))" "\<not> is_connected s'"
    by auto
  have "failed_attempts (MAX_RETRIES - r)
         = [Connect, Sleep 2000] @ failed_attempts (MAX_RETRIES - (r + 1))"
  proof -
    have "MAX_RETRIES - r = Suc (MAX_RETRIES - (r + 1))" using lt by simp
    then show ?thesis unfolding failed_attempts_def by (simp only: replicate_Suc concat.simps)
  qed
  with s' c2 step show ?case by simp
qed

lemma teardown_disconnected:
  "\<not> is_connected s \<Longrightarrow> trace (teardown env s) = trace s @ [Sleep 30000]"
  by (simp add: teardown_def)

lemma session_exhausted:
  assumes "\<forall>i<MAX_RETRIES. \<not> snd (connect_reply env i)"
    "\<not> is_set stop_at (s\<lparr>clock := clock s + 2000 * MAX_RETRIES\<rparr>)"
  shows "\<exists>s1 s2. session_body stop_at env s = (Raised ConnectionRefusedError, s1)
           \<and> trace s1 = trace s @ failed_attempts MAX_RETRIES
           \<and> session stop_at env s = (Normal, s2)
           \<and> trace s2 = trace s @ failed_attempts MAX_RETRIES @ [Sleep 10000, Sleep 30000]
           \<and> con s2 = None \<and> clock s2 = clock s + 50000"
proof -
  let ?s0 = "s\<lparr>con := Some False\<rparr>"
  have "\<not> is_set stop_at (?s0\<lparr>clock := clock ?s0 + 2000 * (MAX_RETRIES - 0)\<rparr>)"
    using assms(2)
      is_set_clock [of "?s0\<lparr>clock := clock ?s0 + 2000 * (MAX_RETRIES - 0)\<rparr>"
        "s\<lparr>clock := clock s + 2000 * MAX_RETRIES\<rparr>" stop_at] by simp
  from connect_loop_exhausted [OF assms(1) _ _ this]
  obtain s1 where s1: "connect_loop stop_at (connect_reply env) 0 ?s0 = (Raised ConnectionRefusedError, s1)"
    "trace s1 = trace s @ failed_attempts MAX_RETRIES"
    "clock s1 = clock s + 2000 * MAX_RETRIES" "\<not> is_connected s1" by auto
  then have b: "session_body stop_at env s = (Raised ConnectionRefusedError, s1)"
    by (simp add: session_body_def connect_phase_def)
  then have ss: "session stop_at env s = (Normal, teardown env (sleep 10000 s1))"
    by (simp add: session_def)
  have "trace (teardown env (sleep 10000 s1))
         = trace s @ failed_attempts MAX_RETRIES @ [Sleep 10000, Sleep 30000]"
    using s1 by (simp add: teardown_disconnected)
  moreover have "clock (teardown env (sleep 10000 s1)) = clock s + 50000"
    using s1 by (simp add: teardown_effect MAX_RETRIES_def)
  ultimately show ?thesis using b ss s1(2) by (simp add: teardown_effect)
qed

text \<open>
  C6. A pass of the outer loop calls \<open>connect\<close> at most \<open>MAX_RETRIES\<close> = 5 times. If
  all five attempts fail and the stop event is not set meanwhile, each attempt is
  followed by a 2 s sleep, the pass raises \<open>ConnectionRefusedError\<close>, which is caught:
  10 s backoff, 30 s cooldown, \<open>con = None\<close>, and the pass ends normally. No exception
  ever leaves a pass. The outer loop ends only by finding the stop event set at its
  loop test: it does end there when the event is set, and otherwise a finished pass is
  followed by the next one, which starts again with the connection loop.
\<close>

theorem bounded_connect_retries:
  "MAX_RETRIES = 5
   \<and> connects (trace (snd (session stop_at env s))) \<le> connects (trace s) + MAX_RETRIES
   \<and> ((\<forall>i<MAX_RETRIES. \<not> snd (connect_reply env i))
        \<and> \<not> is_set stop_at (s\<lparr>clock := clock s + 2000 * MAX_RETRIES\<rparr>)
       \<longrightarrow> (\<exists>s1 s2. session_body stop_at env s = (Raised ConnectionRefusedError, s1)
              \<and> trace s1 = trace s @ failed_attempts MAX_RETRIES
              \<and> session stop_at env s = (Normal, s2)
              \<and> trace s2 = trace s @ failed_attempts MAX_RETRIES @ [Sleep 10000, Sleep 30000]
              \<and> con s2 = None \<and> clock s2 = clock s + 50000))
   \<and> fst (session stop_at env s) \<noteq> Raised e
   \<and> (run_rtde_controller stop_at envs s = (Normal, s') \<longrightarrow> is_set stop_at s')
   \<and> (is_set stop_at s \<longrightarrow> run_rtde_controller stop_at envs s = (Normal, s))
   \<and> (\<not> is_set stop_at s \<and> session stop_at env s = (Normal, s2') \<longrightarrow>
        run_rtde_controller stop_at (env # envs) s = run_rtde_controller stop_at envs s2')"
proof -
  have 1: "MAX_RETRIES = 5" by (simp add: MAX_RETRIES_def)
  have 2: "connects (trace (snd (session stop_at env s))) \<le> connects (trace s) + MAX_RETRIES"
    by (rule session_connects)
  have 3: "\<exists>s1 s2. session_body stop_at env s = (Raised ConnectionRefusedError, s1)
              \<and> trace s1 = trace s @ failed_attempts MAX_RETRIES
              \<and> session stop_at env s = (Normal, s2)
              \<and> trace s2 = trace s @ failed_attempts MAX_RETRIES @ [Sleep 10000, Sleep 30000]
              \<and> con s2 = None \<and> clock s2 = clock s + 50000"
    if "(\<forall>i<MAX_RETRIES. \<not> snd (connect_reply env i))
        \<and> \<not> is_set stop_at (s\<lparr>clock := clock s + 2000 * MAX_RETRIES\<rparr>)"
    by (rule session_exhausted) (use that in simp_all)
  have 4: "fst (session stop_at env s) \<noteq> Raised e"
    using session_outcome [of stop_at env s] by auto
  have 5: "is_set stop_at s'" if "run_rtde_controller stop_at envs s = (Normal, s')"
    using that by (rule run_Normal_is_set)
  have 6: "run_rtde_controller stop_at envs s = (Normal, s)" if "is_set stop_at s"
    using that by (cases envs) simp_all
  have 7: "run_rtde_controller stop_at (env # envs) s = run_rtde_controller stop_at envs s2'"
    if "\<not> is_set stop_at s \<and> session stop_at env s = (Normal, s2')"
    using that by simp
  show ?thesis
    by (intro conjI impI 1 2 4; (erule 3 5 6 7)?)
qed

lemmas model_defs =
  example_env_def example_cycle_def example_object_def init_controller_def session_def
  session_body_def connect_phase_def handshake_def input_setup_def
  output_setup_def start_sync_def load_config_def cycle_def send_if_changed_def
  consume_latest_def drain_queue_eq publish_all_append teardown_def sleep_def emit_def
  con_call_def is_connected_def is_set_def hasattr_def calculate_speed_fraction_def
  velocity_defs cycle_period_ms_def RTDE_FREQUENCY_def MAX_RETRIES_def Let_def

lemma connected_state_reached:
  "connect_phase None (connect_reply (example_env example_object [])) init_controller
     = (Normal, connected_state)"
  "connect_phase None (connect_reply failing_env) init_controller = (Normal, connected_state)"
  "trace connected_state = [Connect]"
  by (auto simp: model_defs connect_loop.simps connected_state_def failing_env_def)

lemma example_env_steps:
  "config_loads (example_env example_object [])" "input_ok (example_env example_object [])"
  "output_ok (example_env example_object [])" "start_ok (example_env example_object [])"
  "config_loads failing_env" "\<not> start_ok failing_env" "steps_attempted failing_env = 3"
  by (simp_all add: example_env_def failing_env_def input_ok_def output_ok_def start_ok_def
        steps_attempted_def)

lemma refusing_env_refuses:
  "\<forall>i<MAX_RETRIES. \<not> snd (connect_reply refusing_env i)"
  "\<not> is_set (Some 45000) (init_controller\<lparr>clock := clock init_controller + 2000 * MAX_RETRIES\<rparr>)"
  "\<not> is_set (Some 45000) init_controller"
  by (simp_all add: refusing_env_def example_env_def is_set_def init_controller_def MAX_RETRIES_def)

theorem bounded_connect_retries_witness:
  "\<not> snd (connect_reply refusing_env 0) \<and> \<not> snd (connect_reply refusing_env 4)
   \<and> \<not> is_set (Some 45000)
         (init_controller\<lparr>clock := clock init_controller + 2000 * MAX_RETRIES\<rparr>)
   \<and> session (Some 45000) refusing_env init_controller = (Normal, exhausted_state)
   \<and> trace exhausted_state = failed_attempts 5 @ [Sleep 10000, Sleep 30000]
   \<and> con exhausted_state = None \<and> clock exhausted_state = 50000
   \<and> \<not> is_set (Some 45000) init_controller
   \<and> is_set (Some 45000) exhausted_state
   \<and> run_rtde_controller (Some 45000) [refusing_env] init_controller = (Normal, exhausted_state)"
proof -
  note t = bounded_connect_retries [of "Some 45000" refusing_env init_controller
      ConnectionRefusedError "[]" exhausted_state exhausted_state]
  from t refusing_env_refuses(1,2) obtain s1 s2 where
    s: "session (Some 45000) refusing_env init_controller = (Normal, s2)"
       "trace s2 = trace init_controller @ failed_attempts MAX_RETRIES @ [Sleep 10000, Sleep 30000]"
       "con s2 = None" "clock s2 = clock init_controller + 50000"
    by blast
  then have e: "s2 = exhausted_state" by (simp add: exhausted_state_def)
  have set: "is_set (Some 45000) exhausted_state"
    using s(4) e by (simp add: is_set_def init_controller_def)
  have "run_rtde_controller (Some 45000) [] exhausted_state = (Normal, exhausted_state)"
    using bounded_connect_retries [of "Some 45000" refusing_env exhausted_state
        ConnectionRefusedError "[]" exhausted_state exhausted_state] set by blast
  moreover have "run_rtde_controller (Some 45000) [refusing_env] init_controller
        = run_rtde_controller (Some 45000) [] exhausted_state"
    using t refusing_env_refuses(3) s(1) e by blast
  ultimately show ?thesis
    using s e set refusing_env_refuses t by (simp add: init_controller_def)
qed

section \<open>Properties of the handshake\<close>

lemma input_setup_record:
  assumes "fst (input_setup_reply env) = Returns (Some obj0)"
  shows "\<exists>obj. input_data (snd (input_setup env s)) = Some obj
           \<and> (\<forall>n. hasattr obj n = hasattr obj0 n)
           \<and> getattr obj ''speed_slider_fraction''
               = (if hasattr obj0 ''speed_slider_fraction''
                  then Some (PNum VELOCITY_OVER_3M_THRESHOLD) else None)
           \<and> (\<forall>n. n \<noteq> ''speed_slider_fraction'' \<and> n \<noteq> ''speed_slider_mask''
                  \<longrightarrow> getattr obj n = getattr obj0 n)"
proof -
  have none: "getattr obj0 ''speed_slider_fraction'' = None"
    if "\<not> hasattr obj0 ''speed_slider_fraction''"
    using that by (simp add: hasattr_def getattr_def)
  show ?thesis
    using assms none
    by (auto simp: input_setup_def Let_def getattr_setattr_other)
qed

lemma handshake_record:
  assumes "fst (handshake env s) = Normal"
  shows "input_data (snd (handshake env s)) = input_data (snd (input_setup env s))"
proof -
  from assms have "input_ok env" "output_ok env" "start_ok env"
    by (simp_all add: handshake_Normal_iff)
  then show ?thesis
    by (simp add: handshake_def and_then_cases input_setup_effect output_setup_effect
        start_sync_effect)
qed

lemma cycle_sent_no_field:
  "\<not> has_fraction_field s \<Longrightarrow>
     sent_fractions (trace (snd (cycle c s))) = sent_fractions (trace s)"
  by (simp add: cycle_sent)

lemma cyclic_loop_sent_no_field:
  "\<not> has_fraction_field s \<Longrightarrow>
     sent_fractions (trace (snd (cyclic_loop stop_at cs s))) = sent_fractions (trace s)"
proof (induction cs arbitrary: s)
  case Nil
  then show ?case by simp
next
  case (Cons c cs)
  obtain r s' where cy: "cycle c s = (r, s')" by (cases "cycle c s")
  have f: "\<not> has_fraction_field s'" using cycle_field [of c s] cy Cons.prems by simp
  have t: "sent_fractions (trace s') = sent_fractions (trace s)"
    using cycle_sent_no_field [OF Cons.prems, of c] cy by simp
  show ?case
  proof (cases "\<not> is_set stop_at s \<and> is_connected s")
    case True
    show ?thesis
    proof (cases "r = Normal")
      case n: True
      have "cyclic_loop stop_at (c # cs) s = cyclic_loop stop_at cs (sleep cycle_period_ms s')"
        using True cy n by simp
      moreover have "\<not> has_fraction_field (sleep cycle_period_ms s')" using f by simp
      ultimately show ?thesis using Cons.IH [of "sleep cycle_period_ms s'"] t by simp
    next
      case False
      then have "cyclic_loop stop_at (c # cs) s = (r, s')" using True cy by (cases r) simp_all
      with t show ?thesis by simp
    qed
  next
    case False
    then have "cyclic_loop stop_at (c # cs) s = (Normal, s)" by auto
    then show ?thesis by simp
  qed
qed

text \<open>
  C5, as stated: the handshake registers the input fields with the speed-throttle field
  initialized to 1.0. It fails: with a recipe that has no \<open>speed_slider_fraction\<close> the
  transport connects, all three steps succeed, and the record kept for the cyclic
  exchange has no such field, so no field holds 1.0.
\<close>

theorem handshake_field_counterexample:
  "connect_phase None (connect_reply (example_env no_fraction_object [])) init_controller
     = (Normal, connected_state)
   \<and> fst (handshake (example_env no_fraction_object []) connected_state) = Normal
   \<and> trace (snd (handshake (example_env no_fraction_object []) connected_state))
       = [Connect, SendInputSetup, SendOutputSetup 100, SendStart]
   \<and> input_data (snd (handshake (example_env no_fraction_object []) connected_state))
       = Some [(''speed_slider_mask'', PNum 1)]
   \<and> getattr [(''speed_slider_mask'', PNum 1)] ''speed_slider_fraction'' = None"
  by (auto simp: model_defs connect_loop.simps connected_state_def no_fraction_object_def
        getattr_def)

text \<open>
  C5, amended. Once the connection loop has ended with the transport connected and the
  recipe is loaded, the handshake issues \<open>send_input_setup\<close>, \<open>send_output_setup\<close> at
  100 Hz and \<open>send_start\<close>, in this order and nothing else, a step being attempted only
  if the one before succeeded. If all three succeed, the record kept for the cyclic
  exchange is the record returned by \<open>send_input_setup\<close> with the same fields, its
  \<open>speed_slider_fraction\<close> set to 1.0 if it has that field (and left without it
  otherwise), and every field other than the two speed slider fields untouched; the
  cyclic loop starts from there, so no cyclic receive or send precedes the three steps,
  and with a record that lacks the field nothing is ever sent. If one of the steps fails
  (it raises or returns a false value), the attempt ends with an exception after the
  steps attempted so far, the session is torn down (\<open>con = None\<close>) and no cyclic receive
  or send has been issued.
\<close>

theorem handshake_order:
  assumes "connect_phase stop_at (connect_reply env) s = (Normal, s1)" and "config_loads env"
  shows "is_connected s1
    \<and> filter cyclic_event (trace s1) = filter cyclic_event (trace s)
    \<and> (input_ok env \<and> output_ok env \<and> start_ok env \<longrightarrow>
         (\<exists>obj0 obj s2. fst (input_setup_reply env) = Returns (Some obj0)
            \<and> handshake env s1 = (Normal, s2)
            \<and> trace s2 = trace s1 @ [SendInputSetup, SendOutputSetup 100, SendStart]
            \<and> input_data s2 = Some obj
            \<and> (\<forall>n. hasattr obj n = hasattr obj0 n)
            \<and> getattr obj ''speed_slider_fraction''
                = (if hasattr obj0 ''speed_slider_fraction'' then Some (PNum 1.0) else None)
            \<and> (\<forall>n. n \<noteq> ''speed_slider_fraction'' \<and> n \<noteq> ''speed_slider_mask''
                   \<longrightarrow> getattr obj n = getattr obj0 n)
            \<and> session_body stop_at env s = cyclic_loop stop_at (cycles env) s2
            \<and> (\<not> hasattr obj0 ''speed_slider_fraction'' \<longrightarrow>
                  sent_fractions (trace (snd (session_body stop_at env s)))
                    = sent_fractions (trace s2))))
    \<and> (\<not> (input_ok env \<and> output_ok env \<and> start_ok env) \<longrightarrow>
         (\<exists>e s2 s3. session_body stop_at env s = (Raised e, s2)
            \<and> trace s2 = trace s1 @ take (steps_attempted env) handshake_steps
            \<and> session stop_at env s = (Normal, s3) \<and> con s3 = None
            \<and> filter cyclic_event (trace s3) = filter cyclic_event (trace s)))"
proof -
  have c: "is_connected s1" using assms(1) by (rule connect_phase_Normal)
  from connect_phase_effect [of stop_at "connect_reply env" s] assms(1)
  obtain C where C: "trace s1 = trace s @ C" "set C \<subseteq> {Connect, Sleep 2000}" by auto
  then have f1: "filter cyclic_event (trace s1) = filter cyclic_event (trace s)"
    by (simp add: cyclic_filter_connect)
  have good: "\<exists>obj0 obj s2. fst (input_setup_reply env) = Returns (Some obj0)
            \<and> handshake env s1 = (Normal, s2)
            \<and> trace s2 = trace s1 @ [SendInputSetup, SendOutputSetup 100, SendStart]
            \<and> input_data s2 = Some obj
            \<and> (\<forall>n. hasattr obj n = hasattr obj0 n)
            \<and> getattr obj ''speed_slider_fraction''
                = (if hasattr obj0 ''speed_slider_fraction'' then Some (PNum 1.0) else None)
            \<and> (\<forall>n. n \<noteq> ''speed_slider_fraction'' \<and> n \<noteq> ''speed_slider_mask''
                   \<longrightarrow> getattr obj n = getattr obj0 n)
            \<and> session_body stop_at env s = cyclic_loop stop_at (cycles env) s2
            \<and> (\<not> hasattr obj0 ''speed_slider_fraction'' \<longrightarrow>
                  sent_fractions (trace (snd (session_body stop_at env s)))
                    = sent_fractions (trace s2))"
    if ok: "input_ok env \<and> output_ok env \<and> start_ok env"
  proof -
    from ok have n: "fst (handshake env s1) = Normal" by (simp add: handshake_Normal_iff)
    define s2 where "s2 = snd (handshake env s1)"
    have h: "handshake env s1 = (Normal, s2)" using n by (simp add: s2_def prod_eq_iff)
    have t: "trace s2 = trace s1 @ [SendInputSetup, SendOutputSetup 100, SendStart]"
      using ok by (simp add: s2_def handshake_trace steps_attempted_def handshake_steps_def
            RTDE_FREQUENCY_def)
    from ok obtain obj0 where o: "fst (input_setup_reply env) = Returns (Some obj0)"
      by (auto simp: input_ok_def)
    from input_setup_record [OF o, of s1] handshake_record [OF n]
    obtain obj where obj: "input_data s2 = Some obj" "\<forall>n. hasattr obj n = hasattr obj0 n"
      "getattr obj ''speed_slider_fraction''
         = (if hasattr obj0 ''speed_slider_fraction'' then Some (PNum 1.0) else None)"
      "\<forall>n. n \<noteq> ''speed_slider_fraction'' \<and> n \<noteq> ''speed_slider_mask''
            \<longrightarrow> getattr obj n = getattr obj0 n"
      by (auto simp: s2_def VELOCITY_OVER_3M_THRESHOLD_def)
    have b: "session_body stop_at env s = cyclic_loop stop_at (cycles env) s2"
      using session_body_split [OF assms] h by simp
    have nf: "sent_fractions (trace (snd (session_body stop_at env s)))
                = sent_fractions (trace s2)"
      if "\<not> hasattr obj0 ''speed_slider_fraction''"
    proof -
      from that obj(1,2) have "\<not> has_fraction_field s2" by (simp add: has_fraction_field_def)
      then show ?thesis unfolding b by (rule cyclic_loop_sent_no_field)
    qed
    from o h t obj b nf show ?thesis by blast
  qed
  have bad: "\<exists>e s2 s3. session_body stop_at env s = (Raised e, s2)
            \<and> trace s2 = trace s1 @ take (steps_attempted env) handshake_steps
            \<and> session stop_at env s = (Normal, s3) \<and> con s3 = None
            \<and> filter cyclic_event (trace s3) = filter cyclic_event (trace s)"
    if bad: "\<not> (input_ok env \<and> output_ok env \<and> start_ok env)"
  proof -
    from bad have n: "fst (handshake env s1) \<noteq> Normal" by (simp add: handshake_Normal_iff)
    with handshake_outcome [of env s1] obtain e where e: "fst (handshake env s1) = Raised e"
      by (cases "fst (handshake env s1)") auto
    define s2 where "s2 = snd (handshake env s1)"
    have h: "handshake env s1 = (Raised e, s2)" using e by (simp add: s2_def prod_eq_iff)
    have b: "session_body stop_at env s = (Raised e, s2)"
      using session_body_split [OF assms] h by simp
    have t: "trace s2 = trace s1 @ take (steps_attempted env) handshake_steps"
      by (simp add: s2_def handshake_trace)
    from session_raised [OF b] obtain ms where
      ss: "session stop_at env s = (Normal, teardown env (sleep ms s2))" by blast
    have "filter cyclic_event (trace (teardown env (sleep ms s2))) = filter cyclic_event (trace s)"
      by (simp add: cyclic_filter_teardown t f1 cyclic_filter_handshake cyclic_event_def)
    with b t ss show ?thesis by (auto simp: teardown_effect)
  qed
  from c f1 good bad show ?thesis by blast
qed

lemma connected_state_reached_any:
  "connect_phase None (connect_reply (example_env obj cs)) init_controller
     = (Normal, connected_state)"
  by (auto simp: model_defs connect_loop.simps connected_state_def)

lemma handshake_example:
  "handshake (example_env example_object []) connected_state
     = (Normal, snd (handshake (example_env example_object []) connected_state))"
  "trace (snd (handshake (example_env example_object []) connected_state))
     = [Connect, SendInputSetup, SendOutputSetup 100, SendStart]"
  "input_data (snd (handshake (example_env example_object []) connected_state))
     = Some [(''speed_slider_mask'', PNum 1), (''speed_slider_fraction'', PNum 1)]"
  by (auto simp: model_defs connect_loop.simps connected_state_def setattr.simps)

lemma no_fraction_example:
  "config_loads (example_env no_fraction_object [example_cycle []])"
  "input_ok (example_env no_fraction_object [example_cycle []])"
  "output_ok (example_env no_fraction_object [example_cycle []])"
  "start_ok (example_env no_fraction_object [example_cycle []])"
  "fst (input_setup_reply (example_env no_fraction_object [example_cycle []]))
     = Returns (Some no_fraction_object)"
  "\<not> hasattr no_fraction_object ''speed_slider_fraction''"
  by (simp_all add: example_env_def input_ok_def output_ok_def start_ok_def
        no_fraction_object_def hasattr_def)

theorem handshake_order_witness:
  "connect_phase None (connect_reply (example_env example_object [])) init_controller
     = (Normal, connected_state)
   \<and> config_loads (example_env example_object [])
   \<and> input_ok (example_env example_object []) \<and> output_ok (example_env example_object [])
   \<and> start_ok (example_env example_object [])
   \<and> (\<exists>s2. handshake (example_env example_object []) connected_state = (Normal, s2)
         \<and> trace s2 = [Connect, SendInputSetup, SendOutputSetup 100, SendStart]
         \<and> input_data s2
             = Some [(''speed_slider_mask'', PNum 1), (''speed_slider_fraction'', PNum 1)])
   \<and> connect_phase None (connect_reply (example_env no_fraction_object [example_cycle []]))
        init_controller = (Normal, connected_state)
   \<and> config_loads (example_env no_fraction_object [example_cycle []])
   \<and> \<not> hasattr no_fraction_object ''speed_slider_fraction''
   \<and> sent_fractions (trace (snd (session_body None
          (example_env no_fraction_object [example_cycle []]) init_controller))) = []
   \<and> connect_phase None (connect_reply failing_env) init_controller = (Normal, connected_state)
   \<and> config_loads failing_env
   \<and> \<not> (input_ok failing_env \<and> output_ok failing_env \<and> start_ok failing_env)
   \<and> (\<exists>e s2 s3. session_body None failing_env init_controller = (Raised e, s2)
         \<and> trace s2 = [Connect, SendInputSetup, SendOutputSetup 100, SendStart]
         \<and> session None failing_env init_controller = (Normal, s3) \<and> con s3 = None
         \<and> filter cyclic_event (trace s3) = [])"
proof -
  note good = handshake_order [OF connected_state_reached(1) example_env_steps(1)]
  note nofield = handshake_order [OF connected_state_reached_any no_fraction_example(1)]
  note bad = handshake_order [OF connected_state_reached(2) example_env_steps(5)]
  have 1: "\<exists>s2. handshake (example_env example_object []) connected_state = (Normal, s2)
         \<and> trace s2 = [Connect, SendInputSetup, SendOutputSetup 100, SendStart]
         \<and> input_data s2
             = Some [(''speed_slider_mask'', PNum 1), (''speed_slider_fraction'', PNum 1)]"
    using good handshake_example by auto
  from nofield no_fraction_example obtain s2 where
    s2: "handshake (example_env no_fraction_object [example_cycle []]) connected_state
           = (Normal, s2)"
        "trace s2 = trace connected_state @ [SendInputSetup, SendOutputSetup 100, SendStart]"
        "sent_fractions (trace (snd (session_body None
            (example_env no_fraction_object [example_cycle []]) init_controller)))
          = sent_fractions (trace s2)"
    by auto
  have 2: "sent_fractions (trace (snd (session_body None
          (example_env no_fraction_object [example_cycle []]) init_controller))) = []"
    using s2(2,3) connected_state_reached(3)
    by (simp add: sent_fractions_def sent_objects_def)
  have 3: "\<exists>e s2 s3. session_body None failing_env init_controller = (Raised e, s2)
         \<and> trace s2 = [Connect, SendInputSetup, SendOutputSetup 100, SendStart]
         \<and> session None failing_env init_controller = (Normal, s3) \<and> con s3 = None
         \<and> filter cyclic_event (trace s3) = []"
    using bad connected_state_reached example_env_steps
    by (auto simp: handshake_steps_def RTDE_FREQUENCY_def init_controller_def)
  from 1 2 3 show ?thesis
    using connected_state_reached connected_state_reached_any example_env_steps
      no_fraction_example
    by simp
qed

section \<open>Properties of cancellation\<close>

lemma is_set_con [simp]: "is_set stop_at (s\<lparr>con := c\<rparr>) = is_set stop_at s"
  by (rule is_set_clock) simp









end
